theory Spec2Isabelle
  imports Main
begin

section \<open>RoadCLI: the command tree, the parser and the dispatcher of cli.py\<close>

text \<open>
  A shallow embedding of \<^verbatim>\<open>src/roadcli/cli.py\<close>. A Python string is a list of
  characters, one \<open>char\<close> for each character of the string. The dictionaries of a Context
  are maps; the \<^verbatim>\<open>subcommands\<close> dictionary of a Command, whose order of insertion the
  code iterates over, is an association list with one pair for each key. A raised exception
  is the left injection of a sum type.
\<close>

subsection \<open>Values, types and exceptions\<close>

text \<open>
  The \<^verbatim>\<open>type\<close> field of an Option or an Argument is one of the four value types
  \<^verbatim>\<open>str\<close>, \<^verbatim>\<open>int\<close>, \<^verbatim>\<open>float\<close> and \<^verbatim>\<open>bool\<close>. A resolved value is
  \<^verbatim>\<open>None\<close>, a string, an integer, a float (of a carrier \<open>'f\<close> that the model leaves
  open), a boolean, or the list that a variadic argument collects.
\<close>

datatype vtype = TStr | TInt | TFloat | TBool

datatype 'f val =
    VNone
  | VStr string
  | VInt int
  | VFloat 'f
  | VBool bool
  | VList "'f val list"

text \<open>
  The exceptions of the model. \<open>ValueError typ token\<close> is what the constructor of a
  numeric type raises on a literal it rejects: Python's message quotes the literal and
  names the constructor, and nothing else. \<open>NameError n\<close> is the use of an unbound
  name \<open>n\<close>. \<open>OtherException m\<close> is any other subclass of \<^verbatim>\<open>Exception\<close>, with its
  message; \<open>NonException m\<close> is a \<^verbatim>\<open>BaseException\<close> that is not an \<^verbatim>\<open>Exception\<close>
  (\<^verbatim>\<open>SystemExit\<close>, \<^verbatim>\<open>KeyboardInterrupt\<close>), which \<^verbatim>\<open>except Exception\<close> lets through.
\<close>

datatype exn =
    ValueError vtype string
  | NameError string
  | OtherException string
  | NonException string

fun is_Exception :: "exn \<Rightarrow> bool" where
  "is_Exception (NonException m) = False"
| "is_Exception e = True"

text \<open>
  The parts of Python that the code calls and does not define: the constructors
  \<^verbatim>\<open>int(s)\<close> and \<^verbatim>\<open>float(s)\<close> on a string (\<open>None\<close> when they raise
  \<^verbatim>\<open>ValueError\<close>), and \<^verbatim>\<open>str(e)\<close> on an exception.
\<close>

record 'f builtins =
  int_of :: "string \<Rightarrow> int option"
  float_of :: "string \<Rightarrow> 'f option"
  str_exc :: "exn \<Rightarrow> string"

subsection \<open>Option, Argument, Command, Context\<close>

record 'f Option =
  opt_name :: string
  opt_short :: string
  opt_type :: vtype
  opt_default :: "'f val"
  opt_required :: bool
  opt_help :: string
  opt_multiple :: bool

record 'f Argument =
  arg_name :: string
  arg_type :: vtype
  arg_required :: bool
  arg_default :: "'f val"
  arg_help :: string
  arg_nargs :: string

text \<open>
  A handler is a callable; the model keeps its identity. \<open>DefaultHandler\<close> is the bound
  method \<^verbatim>\<open>CLI._default_handler\<close> of the root, \<open>GroupHandler k\<close> the
  \<^verbatim>\<open>lambda ctx: 0\<close> that the k-th Group creates for itself, and \<open>Fn k\<close> the k-th
  function of the application.
\<close>

datatype handler = DefaultHandler | GroupHandler nat | Fn nat

datatype 'f Command = Command
  (cmd_name: string)
  (cmd_handler: handler)
  (cmd_help: string)
  (cmd_options: "'f Option list")
  (cmd_arguments: "'f Argument list")
  (cmd_subcommands: "(string \<times> 'f Command) list")

datatype 'f Context = Context
  (ctx_options: "string \<rightharpoonup> 'f val")
  (ctx_arguments: "string \<rightharpoonup> 'f val")
  (ctx_parent: "'f Context option")
  (ctx_command: "'f Command option")

text \<open>\<^verbatim>\<open>Context.__init__\<close>: two empty dictionaries, no parent, no command.\<close>

definition new_Context :: "'f Context" where
  "new_Context = Context Map.empty Map.empty None None"

fun set_option :: "string \<Rightarrow> 'f val \<Rightarrow> 'f Context \<Rightarrow> 'f Context" where
  "set_option k v (Context os as p c) = Context (os(k \<mapsto> v)) as p c"

fun set_argument :: "string \<Rightarrow> 'f val \<Rightarrow> 'f Context \<Rightarrow> 'f Context" where
  "set_argument k v (Context os as p c) = Context os (as(k \<mapsto> v)) p c"

fun set_parent :: "'f Context \<Rightarrow> 'f Context \<Rightarrow> 'f Context" where
  "set_parent q (Context os as p c) = Context os as (Some q) c"

fun set_command :: "'f Command \<Rightarrow> 'f Context \<Rightarrow> 'f Context" where
  "set_command d (Context os as p c) = Context os as p (Some d)"

text \<open>\<^verbatim>\<open>Context.get\<close>: the option of that name, else the argument, else the default given.\<close>

definition ctx_get :: "'f Context \<Rightarrow> string \<Rightarrow> 'f val \<Rightarrow> 'f val" where
  "ctx_get ctx key dflt =
     (case ctx_options ctx key of
        Some v \<Rightarrow> v
      | None \<Rightarrow> (case ctx_arguments ctx key of Some v \<Rightarrow> v | None \<Rightarrow> dflt))"

subsection \<open>The Parser\<close>

text \<open>\<^verbatim>\<open>_find_option\<close> and \<^verbatim>\<open>_find_option_short\<close>: the first Option, in declaration
  order, with that name (with that short alias).\<close>

definition find_option :: "'f Command \<Rightarrow> string \<Rightarrow> 'f Option option" where
  "find_option cmd n = find (\<lambda>opt. opt_name opt = n) (cmd_options cmd)"

definition find_option_short :: "'f Command \<Rightarrow> string \<Rightarrow> 'f Option option" where
  "find_option_short cmd s = find (\<lambda>opt. opt_short opt = s) (cmd_options cmd)"

text \<open>\<^verbatim>\<open>str.lower\<close>: the letters A to Z are mapped to a to z. No other character of the
  model has one of the letters of the four truthy literals as its lower case.\<close>

definition lower_char :: "char \<Rightarrow> char" where
  "lower_char c =
     (case map_of (zip ''ABCDEFGHIJKLMNOPQRSTUVWXYZ'' ''abcdefghijklmnopqrstuvwxyz'') c of
        Some d \<Rightarrow> d
      | None \<Rightarrow> c)"

definition lower :: "string \<Rightarrow> string" where
  "lower s = map lower_char s"

text \<open>\<^verbatim>\<open>typ(value)\<close>, the call of the type on a string. \<^verbatim>\<open>str(s)\<close> is \<open>s\<close>,
  \<^verbatim>\<open>bool(s)\<close> is true for a non-empty string, \<^verbatim>\<open>int(s)\<close> and \<^verbatim>\<open>float(s)\<close> raise
  \<^verbatim>\<open>ValueError\<close> on a literal they reject.\<close>

definition construct :: "'f builtins \<Rightarrow> vtype \<Rightarrow> string \<Rightarrow> exn + 'f val" where
  "construct B typ s =
     (case typ of
        TStr \<Rightarrow> Inr (VStr s)
      | TBool \<Rightarrow> Inr (VBool (s \<noteq> []))
      | TInt \<Rightarrow> (case int_of B s of None \<Rightarrow> Inl (ValueError TInt s) | Some n \<Rightarrow> Inr (VInt n))
      | TFloat \<Rightarrow> (case float_of B s of None \<Rightarrow> Inl (ValueError TFloat s) | Some x \<Rightarrow> Inr (VFloat x)))"

text \<open>\<^verbatim>\<open>_convert\<close>. The value is \<^verbatim>\<open>None\<close> or a token.\<close>

definition convert :: "'f builtins \<Rightarrow> string option \<Rightarrow> vtype \<Rightarrow> exn + 'f val" where
  "convert B value typ =
     (case value of
        None \<Rightarrow> Inr VNone
      | Some s \<Rightarrow>
          if typ = TBool then Inr (VBool (lower s \<in> set [''true'', ''1'', ''yes'', ''on'']))
          else construct B typ s)"

text \<open>\<^verbatim>\<open>_apply_defaults\<close>: in declaration order, a name that is not a key yet gets the
  declared default.\<close>

definition default_options :: "'f Option list \<Rightarrow> (string \<rightharpoonup> 'f val) \<Rightarrow> (string \<rightharpoonup> 'f val)" where
  "default_options opts m =
     foldl (\<lambda>m opt. if m (opt_name opt) = None then m(opt_name opt \<mapsto> opt_default opt) else m) m opts"

definition default_arguments :: "'f Argument list \<Rightarrow> (string \<rightharpoonup> 'f val) \<Rightarrow> (string \<rightharpoonup> 'f val)" where
  "default_arguments args m =
     foldl (\<lambda>m a. if m (arg_name a) = None then m(arg_name a \<mapsto> arg_default a) else m) m args"

fun apply_defaults :: "'f Command \<Rightarrow> 'f Context \<Rightarrow> 'f Context" where
  "apply_defaults cmd (Context os as p c) =
     Context (default_options (cmd_options cmd) os) (default_arguments (cmd_arguments cmd) as) p c"

text \<open>The loop after the scan, \<^verbatim>\<open>for name, values in collected_args.items()\<close>: every
  collected sequence is stored under its name.\<close>

fun store_collected :: "(string \<rightharpoonup> 'f val list) \<Rightarrow> 'f Context \<Rightarrow> 'f Context" where
  "store_collected collected (Context os as p c) =
     Context os (\<lambda>n. case collected n of Some vs \<Rightarrow> Some (VList vs) | None \<Rightarrow> as n) p c"

text \<open>\<^verbatim>\<open>args[i] if i < len(args) else None\<close> after \<^verbatim>\<open>i += 1\<close>, on the tokens that
  follow the current one.\<close>

definition next_value :: "string list \<Rightarrow> string option" where
  "next_value rest = (case rest of [] \<Rightarrow> None | v # _ \<Rightarrow> Some v)"

text \<open>
  The \<^verbatim>\<open>while i < len(args)\<close> loop of \<^verbatim>\<open>Parser.parse\<close>, on the tokens
  \<^verbatim>\<open>args[i:]\<close> that remain, with the locals \<^verbatim>\<open>arg_idx\<close>, \<^verbatim>\<open>collected_args\<close> and
  \<^verbatim>\<open>ctx\<close>. A long option without \<^verbatim>\<open>=\<close>, and a known short option, step over the
  token that follows (\<open>tl rest\<close>; at the end of the stream the value is \<^verbatim>\<open>None\<close>). A
  bare token that names a subcommand starts a parser for the child on \<^verbatim>\<open>args[i + 1:]\<close>
  and returns its Context, with \<^verbatim>\<open>parent\<close> set to the Context of this level as it is.
\<close>

function parse_loop ::
  "'f builtins \<Rightarrow> 'f Command \<Rightarrow> string list \<Rightarrow> nat \<Rightarrow> (string \<rightharpoonup> 'f val list) \<Rightarrow> 'f Context
     \<Rightarrow> exn + 'f Context" where
  "parse_loop B cmd [] arg_idx collected ctx =
     Inr (apply_defaults cmd (store_collected collected ctx))"
| "parse_loop B cmd (arg # rest) arg_idx collected ctx =
     (if take 2 arg = ''--'' then
        (if CHR ''='' \<in> set (drop 2 arg) then
           (case find_option cmd (takeWhile (\<lambda>c. c \<noteq> CHR ''='') (drop 2 arg)) of
              None \<Rightarrow> parse_loop B cmd rest arg_idx collected ctx
            | Some opt \<Rightarrow>
                (case convert B (Some (tl (dropWhile (\<lambda>c. c \<noteq> CHR ''='') (drop 2 arg)))) (opt_type opt) of
                   Inl e \<Rightarrow> Inl e
                 | Inr v \<Rightarrow> parse_loop B cmd rest arg_idx collected (set_option (opt_name opt) v ctx)))
         else
           (case find_option cmd (drop 2 arg) of
              None \<Rightarrow> parse_loop B cmd (tl rest) arg_idx collected ctx
            | Some opt \<Rightarrow>
                (case convert B (next_value rest) (opt_type opt) of
                   Inl e \<Rightarrow> Inl e
                 | Inr v \<Rightarrow> parse_loop B cmd (tl rest) arg_idx collected (set_option (opt_name opt) v ctx))))
      else if take 1 arg = ''-'' \<and> length arg = 2 then
        (case find_option_short cmd [arg ! 1] of
           None \<Rightarrow> parse_loop B cmd rest arg_idx collected ctx
         | Some opt \<Rightarrow>
             (case convert B (next_value rest) (opt_type opt) of
                Inl e \<Rightarrow> Inl e
              | Inr v \<Rightarrow> parse_loop B cmd (tl rest) arg_idx collected (set_option (opt_name opt) v ctx)))
      else
        (case map_of (cmd_subcommands cmd) arg of
           Some sub \<Rightarrow>
             (case parse_loop B sub rest 0 Map.empty (set_command sub new_Context) of
                Inl e \<Rightarrow> Inl e
              | Inr sub_ctx \<Rightarrow> Inr (set_parent ctx sub_ctx))
         | None \<Rightarrow>
             (if arg_idx < length (cmd_arguments cmd) then
                (if arg_nargs (cmd_arguments cmd ! arg_idx) \<in> set [''*'', ''+''] then
                   (case convert B (Some arg) (arg_type (cmd_arguments cmd ! arg_idx)) of
                      Inl e \<Rightarrow> Inl e
                    | Inr v \<Rightarrow>
                        parse_loop B cmd rest arg_idx
                          (collected(arg_name (cmd_arguments cmd ! arg_idx) \<mapsto>
                             (case collected (arg_name (cmd_arguments cmd ! arg_idx)) of
                                None \<Rightarrow> [] | Some vs \<Rightarrow> vs) @ [v]))
                          ctx)
                 else
                   (case convert B (Some arg) (arg_type (cmd_arguments cmd ! arg_idx)) of
                      Inl e \<Rightarrow> Inl e
                    | Inr v \<Rightarrow>
                        parse_loop B cmd rest (arg_idx + 1) collected
                          (set_argument (arg_name (cmd_arguments cmd ! arg_idx)) v ctx)))
              else parse_loop B cmd rest arg_idx collected ctx)))"
  by pat_completeness auto
termination
  by (relation "measure (\<lambda>(B, cmd, args, arg_idx, collected, ctx). length args)") auto

text \<open>\<^verbatim>\<open>Parser(command).parse(args)\<close>: a new Context with \<^verbatim>\<open>command\<close> set, the
  cursor and the positional index at 0, nothing collected.\<close>

definition parse :: "'f builtins \<Rightarrow> 'f Command \<Rightarrow> string list \<Rightarrow> exn + 'f Context" where
  "parse B cmd args = parse_loop B cmd args 0 Map.empty (set_command cmd new_Context)"

subsection \<open>The CLI: registration\<close>

text \<open>
  What a callable does beside returning is an effect on the world: the two output
  streams, one entry for each call of \<^verbatim>\<open>print\<close>, and whatever else the application
  keeps (the extension of the record). A callable that raises leaves the world as it was
  at the raise.
\<close>

record world =
  stdout :: "string list"
  stderr :: "string list"

type_synonym ('a, 'w) effect = "'w world_scheme \<Rightarrow> 'a \<times> 'w world_scheme"

definition print_out :: "string \<Rightarrow> 'w world_scheme \<Rightarrow> 'w world_scheme" where
  "print_out s w = w\<lparr>stdout := stdout w @ [s]\<rparr>"

definition print_err :: "string \<Rightarrow> 'w world_scheme \<Rightarrow> 'w world_scheme" where
  "print_err s w = w\<lparr>stderr := stderr w @ [s]\<rparr>"

text \<open>
  A hook is a callable; what it is called with depends on the event: the tokens, the
  Context and the result of the handler, or the exception. It returns \<open>None\<close> when it
  returns and \<open>Some e\<close> when it raises \<open>e\<close>.
\<close>

datatype 'f hook_args =
    BeforeArgs "string list"
  | AfterArgs "'f Context" "'f val"
  | ErrorArgs exn

type_synonym ('f, 'w) hook = "'f hook_args \<Rightarrow> (exn option, 'w) effect"

text \<open>
  The CLI object. The dictionary \<^verbatim>\<open>hooks\<close> has the three keys \<^verbatim>\<open>before\<close>,
  \<^verbatim>\<open>after\<close> and \<^verbatim>\<open>error\<close> from \<^verbatim>\<open>__init__\<close> on and never another one; it is
  three lists.
\<close>

record ('f, 'w) CLI =
  cli_name :: string
  cli_version :: string
  cli_help :: string
  root :: "'f Command"
  hooks_before :: "('f, 'w) hook list"
  hooks_after :: "('f, 'w) hook list"
  hooks_error :: "('f, 'w) hook list"

definition new_CLI :: "string \<Rightarrow> string \<Rightarrow> string \<Rightarrow> ('f, 'w) CLI" where
  "new_CLI name version help =
     \<lparr>cli_name = name, cli_version = version, cli_help = help,
      root = Command name DefaultHandler help [] [] [],
      hooks_before = [], hooks_after = [], hooks_error = []\<rparr>"

text \<open>A dictionary assignment \<^verbatim>\<open>d[k] = v\<close> on an association list: the value of an
  existing key is replaced where it stands, a new key goes to the end.\<close>

fun dict_set :: "'k \<Rightarrow> 'v \<Rightarrow> ('k \<times> 'v) list \<Rightarrow> ('k \<times> 'v) list" where
  "dict_set k v [] = [(k, v)]"
| "dict_set k v (p # ps) = (if fst p = k then (k, v) # ps else p # dict_set k v ps)"

fun set_subcommands :: "(string \<times> 'f Command) list \<Rightarrow> 'f Command \<Rightarrow> 'f Command" where
  "set_subcommands subs (Command n h hp os as ss) = Command n h hp os as subs"

fun append_option :: "'f Option \<Rightarrow> 'f Command \<Rightarrow> 'f Command" where
  "append_option opt (Command n h hp os as ss) = Command n h hp (os @ [opt]) as ss"

text \<open>\<^verbatim>\<open>CLI.command(name, help)(fn)\<close>: a new Command under the root, keyed by its name.\<close>

definition cli_command ::
  "string \<Rightarrow> string \<Rightarrow> handler \<Rightarrow> ('f, 'w) CLI \<Rightarrow> ('f, 'w) CLI" where
  "cli_command name help fn cli =
     cli\<lparr>root := set_subcommands
                     (dict_set name (Command name fn help [] [] []) (cmd_subcommands (root cli)))
                     (root cli)\<rparr>"

text \<open>\<^verbatim>\<open>_find_command_for_handler\<close>: the first direct child of the root, in the order
  of the dictionary, whose handler is \<open>fn\<close>.\<close>

definition find_command_for_handler :: "('f, 'w) CLI \<Rightarrow> handler \<Rightarrow> 'f Command option" where
  "find_command_for_handler cli fn =
     find (\<lambda>cmd. cmd_handler cmd = fn) (map snd (cmd_subcommands (root cli)))"

text \<open>The Command that \<^verbatim>\<open>_find_command_for_handler\<close> returns is the object in the
  dictionary of the root; a change of it is a change of that entry.\<close>

fun update_found :: "handler \<Rightarrow> ('f Command \<Rightarrow> 'f Command) \<Rightarrow> (string \<times> 'f Command) list
    \<Rightarrow> (string \<times> 'f Command) list" where
  "update_found fn f [] = []"
| "update_found fn f (p # ps) =
     (if cmd_handler (snd p) = fn then (fst p, f (snd p)) # ps else p # update_found fn f ps)"

text \<open>\<^verbatim>\<open>CLI.option(...)(fn)\<close>: when a Command of the root has the handler \<open>fn\<close>, an
  Option with the given fields (and \<^verbatim>\<open>multiple\<close> at its default) is appended to its
  options. The decorator returns \<open>fn\<close>.\<close>

definition cli_option ::
  "string \<Rightarrow> string \<Rightarrow> vtype \<Rightarrow> 'f val \<Rightarrow> bool \<Rightarrow> string \<Rightarrow> handler \<Rightarrow> ('f, 'w) CLI
     \<Rightarrow> exn + (handler \<times> ('f, 'w) CLI)" where
  "cli_option name short typ dflt required help fn cli =
     (case find_command_for_handler cli fn of
        Some cmd \<Rightarrow>
          Inr (fn, cli\<lparr>root := set_subcommands
                 (update_found fn
                    (append_option \<lparr>opt_name = name, opt_short = short, opt_type = typ,
                       opt_default = dflt, opt_required = required, opt_help = help,
                       opt_multiple = False\<rparr>)
                    (cmd_subcommands (root cli)))
                 (root cli)\<rparr>)
      | None \<Rightarrow> Inr (fn, cli))"

text \<open>
  \<^verbatim>\<open>CLI.argument(...)(fn)\<close>. When a Command of the root has the handler \<open>fn\<close>, the
  code evaluates \<^verbatim>\<open>Argument(name=name, type=type, required=required, help=rue, nargs=nargs)\<close>:
  the name \<^verbatim>\<open>rue\<close> is bound nowhere in the module, so the evaluation of the call's
  arguments raises \<^verbatim>\<open>NameError\<close> before anything is appended.
\<close>

definition cli_argument ::
  "string \<Rightarrow> vtype \<Rightarrow> bool \<Rightarrow> string \<Rightarrow> string \<Rightarrow> handler \<Rightarrow> ('f, 'w) CLI
     \<Rightarrow> exn + (handler \<times> ('f, 'w) CLI)" where
  "cli_argument name typ required help nargs fn cli =
     (case find_command_for_handler cli fn of
        Some cmd \<Rightarrow> Inl (NameError ''rue'')
      | None \<Rightarrow> Inr (fn, cli))"

text \<open>\<^verbatim>\<open>add_hook\<close>: an event that is not one of the three keys is ignored.\<close>

definition add_hook :: "string \<Rightarrow> ('f, 'w) hook \<Rightarrow> ('f, 'w) CLI \<Rightarrow> ('f, 'w) CLI" where
  "add_hook event h cli =
     (if event = ''before'' then cli\<lparr>hooks_before := hooks_before cli @ [h]\<rparr>
      else if event = ''after'' then cli\<lparr>hooks_after := hooks_after cli @ [h]\<rparr>
      else if event = ''error'' then cli\<lparr>hooks_error := hooks_error cli @ [h]\<rparr>
      else cli)"

subsection \<open>The CLI: run\<close>

text \<open>\<^verbatim>\<open>for hook in hooks: hook(...)\<close>, the hooks already applied to their arguments:
  they are called in order, and the first one that raises ends the loop.\<close>

fun fire :: "(exn option, 'w) effect list \<Rightarrow> (exn option, 'w) effect" where
  "fire [] w = (None, w)"
| "fire (h # hs) w = (case h w of (Some e, w') \<Rightarrow> (Some e, w') | (None, w') \<Rightarrow> fire hs w')"

text \<open>The format \<^verbatim>\<open>{name:15}\<close>: the string, padded with spaces on the right to 15
  characters.\<close>

definition ljust :: "nat \<Rightarrow> string \<Rightarrow> string" where
  "ljust n s = s @ replicate (n - length s) CHR '' ''"

definition print_help :: "('f, 'w) CLI \<Rightarrow> 'w world_scheme \<Rightarrow> 'w world_scheme" where
  "print_help cli w =
     (let w1 = print_out (cli_name cli @ '' '' @ cli_version cli) w;
          w2 = (if cli_help cli \<noteq> [] then print_out (CHR 0x0A # cli_help cli) w1 else w1);
          w3 = print_out (CHR 0x0A # ''Commands:'') w2;
          w4 = foldl (\<lambda>w (name, cmd). print_out (''  '' @ ljust 15 name @ '' '' @ cmd_help cmd) w)
                 w3 (cmd_subcommands (root cli));
          w5 = print_out (CHR 0x0A # ''Options:'') w4;
          w6 = print_out ''  -h, --help     Show this help message'' w5
      in print_out ''  -v, --version  Show version'' w6)"

text \<open>The call of a handler: the default handler of the root prints the help and returns
  0, the handler of a Group returns 0, a function of the application does what the
  environment \<open>F\<close> says: it returns a value or raises.\<close>

definition call_handler ::
  "(nat \<Rightarrow> 'f Context \<Rightarrow> (exn + 'f val, 'w) effect) \<Rightarrow> ('f, 'w) CLI \<Rightarrow> handler \<Rightarrow> 'f Context
     \<Rightarrow> (exn + 'f val, 'w) effect" where
  "call_handler F cli h ctx w =
     (case h of
        DefaultHandler \<Rightarrow> (Inr (VInt 0), print_help cli w)
      | GroupHandler k \<Rightarrow> (Inr (VInt 0), w)
      | Fn k \<Rightarrow> F k ctx w)"

text \<open>\<^verbatim>\<open>result if isinstance(result, int) else 0\<close>; a boolean is an \<^verbatim>\<open>int\<close> in
  Python, \<^verbatim>\<open>True\<close> being 1.\<close>

fun exit_status :: "'f val \<Rightarrow> int" where
  "exit_status (VInt n) = n"
| "exit_status (VBool b) = (if b then 1 else 0)"
| "exit_status v = 0"

text \<open>The body of the \<^verbatim>\<open>try\<close> statement of \<^verbatim>\<open>run\<close>. A Context that the parser
  returns always has its command set, and a callable is truthy.\<close>

definition run_body ::
  "'f builtins \<Rightarrow> (nat \<Rightarrow> 'f Context \<Rightarrow> (exn + 'f val, 'w) effect) \<Rightarrow> ('f, 'w) CLI \<Rightarrow> string list
     \<Rightarrow> (exn + int, 'w) effect" where
  "run_body B F cli args w =
     (if args = [] \<or> hd args \<in> set [''-h'', ''--help''] then (Inr 0, print_help cli w)
      else if hd args \<in> set [''-v'', ''--version'']
        then (Inr 0, print_out (cli_name cli @ '' '' @ cli_version cli) w)
      else
        (case parse B (root cli) args of
           Inl e \<Rightarrow> (Inl e, w)
         | Inr ctx \<Rightarrow>
             (case ctx_command ctx of
                None \<Rightarrow> (Inr 0, w)
              | Some c \<Rightarrow>
                  (case call_handler F cli (cmd_handler c) ctx w of
                     (Inl e, w1) \<Rightarrow> (Inl e, w1)
                   | (Inr result, w1) \<Rightarrow>
                       (case fire (map (\<lambda>h. h (AfterArgs ctx result)) (hooks_after cli)) w1 of
                          (Some e, w2) \<Rightarrow> (Inl e, w2)
                        | (None, w2) \<Rightarrow> (Inr (exit_status result), w2))))))"

text \<open>
  \<^verbatim>\<open>CLI.run(args)\<close> on a list of tokens. The before hooks run ahead of the
  \<^verbatim>\<open>try\<close> statement. \<^verbatim>\<open>except Exception\<close> takes an exception of the body that is an
  \<^verbatim>\<open>Exception\<close>: the error hooks are called with it, inside the handler of the
  exception, then the message goes to the error stream and the result is 1.
\<close>

definition run ::
  "'f builtins \<Rightarrow> (nat \<Rightarrow> 'f Context \<Rightarrow> (exn + 'f val, 'w) effect) \<Rightarrow> ('f, 'w) CLI \<Rightarrow> string list
     \<Rightarrow> (exn + int, 'w) effect" where
  "run B F cli args w =
     (case fire (map (\<lambda>h. h (BeforeArgs args)) (hooks_before cli)) w of
        (Some e, w1) \<Rightarrow> (Inl e, w1)
      | (None, w1) \<Rightarrow>
          (case run_body B F cli args w1 of
             (Inr status, w2) \<Rightarrow> (Inr status, w2)
           | (Inl e, w2) \<Rightarrow>
               (if is_Exception e then
                  (case fire (map (\<lambda>h. h (ErrorArgs e)) (hooks_error cli)) w2 of
                     (Some e', w3) \<Rightarrow> (Inl e', w3)
                   | (None, w3) \<Rightarrow> (Inr 1, print_err (''Error: '' @ str_exc B e) w3))
                else (Inl e, w2))))"

subsection \<open>Predicates of the statements\<close>

text \<open>A token is a flag for the option name \<open>n\<close> of a Command: a long option whose key
  (the text between the two dashes and the first \<^verbatim>\<open>=\<close>) is \<open>n\<close>, or a short option
  whose alias the Command resolves to an Option named \<open>n\<close>.\<close>

definition sets_option :: "'f Command \<Rightarrow> string \<Rightarrow> string \<Rightarrow> bool" where
  "sets_option cmd tok n \<longleftrightarrow>
     (take 2 tok = ''--'' \<and> takeWhile (\<lambda>c. c \<noteq> CHR ''='') (drop 2 tok) = n) \<or>
     (take 1 tok = ''-'' \<and> length tok = 2 \<and>
        map_option opt_name (find_option_short cmd [tok ! 1]) = Some n)"

text \<open>The options of a Context are fully populated: every Option declared on its Command
  is a key. \<open>chain\<close> is a Context followed by its ancestors, and \<open>chain_populated\<close>
  says that a parse that returns gives a Context whose whole chain is fully populated.\<close>

definition populated :: "'f Context \<Rightarrow> bool" where
  "populated ctx \<longleftrightarrow>
     (case ctx_command ctx of
        None \<Rightarrow> False
      | Some c \<Rightarrow> list_all (\<lambda>opt. ctx_options ctx (opt_name opt) \<noteq> None) (cmd_options c))"

fun chain :: "'f Context \<Rightarrow> 'f Context list" where
  "chain (Context os as p c) = Context os as p c # (case p of None \<Rightarrow> [] | Some q \<Rightarrow> chain q)"

definition chain_populated :: "'f builtins \<Rightarrow> 'f Command \<Rightarrow> string list \<Rightarrow> bool" where
  "chain_populated B cmd ts \<longleftrightarrow>
     (case parse B cmd ts of Inl e \<Rightarrow> True | Inr ctx \<Rightarrow> list_all populated (chain ctx))"

text \<open>An option name for which the stream has no flag holds the default declared for
  it (and is no key when no Option has the name); \<open>level_ok\<close> says so for a Context that
  the loop of a Command finishes itself, started from the Context \<open>ctx0\<close>.\<close>

definition unset_default :: "string list \<Rightarrow> 'f Context \<Rightarrow> bool" where
  "unset_default ts ctx \<longleftrightarrow>
     (case ctx_command ctx of
        None \<Rightarrow> False
      | Some c \<Rightarrow>
          (\<forall>n. (\<forall>tok \<in> set ts. \<not> sets_option c tok n) \<longrightarrow>
             ctx_options ctx n = map_option opt_default (find_option c n)))"

definition level_ok :: "'f Command \<Rightarrow> string list \<Rightarrow> 'f Context \<Rightarrow> 'f Context \<Rightarrow> bool" where
  "level_ok cmd ts ctx0 ctx \<longleftrightarrow>
     ctx_command ctx = Some cmd \<and>
     (\<forall>opt \<in> set (cmd_options cmd). ctx_options ctx (opt_name opt) \<noteq> None) \<and>
     (\<forall>n. ctx_options ctx0 n = None \<longrightarrow> (\<forall>tok \<in> set ts. \<not> sets_option cmd tok n) \<longrightarrow>
        ctx_options ctx n = map_option opt_default (find_option cmd n))"

definition good :: "string list \<Rightarrow> 'f Context \<Rightarrow> bool" where
  "good ts ctx \<longleftrightarrow> populated ctx \<and> unset_default ts ctx"

text \<open>What holds of the Context \<open>p\<close> that a Parser, started from the Context
  \<open>ctx0\<close>, leaves as the parent when it returns at a subcommand: the command of
  \<open>ctx0\<close>, no parent, and no option for a name that had none and has no flag.\<close>

definition parent_ok :: "'f Command \<Rightarrow> string list \<Rightarrow> 'f Context \<Rightarrow> 'f Context \<Rightarrow> bool" where
  "parent_ok cmd ts ctx0 p \<longleftrightarrow>
     ctx_command p = ctx_command ctx0 \<and> ctx_parent p = None \<and>
     (\<forall>n. ctx_options ctx0 n = None \<longrightarrow> (\<forall>tok \<in> set ts. \<not> sets_option cmd tok n) \<longrightarrow>
        ctx_options p n = None)"

text \<open>A literal is malformed for a numeric type when the constructor of the type rejects
  it.\<close>

definition malformed :: "'f builtins \<Rightarrow> vtype \<Rightarrow> string \<Rightarrow> bool" where
  "malformed B typ tok \<longleftrightarrow>
     (typ = TInt \<and> int_of B tok = None) \<or> (typ = TFloat \<and> float_of B tok = None)"

text \<open>The positional tokens of a stream, as the loop of a Command reads it: the tokens
  that are neither an option nor the value an option steps over.\<close>

function positionals :: "'f Command \<Rightarrow> string list \<Rightarrow> string list" where
  "positionals cmd [] = []"
| "positionals cmd (arg # rest) =
     (if take 2 arg = ''--'' then
        (if CHR ''='' \<in> set (drop 2 arg) then positionals cmd rest
         else positionals cmd (tl rest))
      else if take 1 arg = ''-'' \<and> length arg = 2 then
        (case find_option_short cmd [arg ! 1] of
           None \<Rightarrow> positionals cmd rest
         | Some opt \<Rightarrow> positionals cmd (tl rest))
      else arg # positionals cmd rest)"
  by pat_completeness auto
termination
  by (relation "measure (\<lambda>(cmd, args). length args)") auto

text \<open>What a variadic Argument holds in the end, when its sequence so far is
  \<open>coll\<close> and the positional tokens \<open>toks\<close> are still to come for it: the sequence
  extended by the converted tokens, in order, or its default when there is nothing.\<close>

definition collects ::
  "'f builtins \<Rightarrow> 'f Argument \<Rightarrow> (string \<rightharpoonup> 'f val list) \<Rightarrow> string list \<Rightarrow> 'f Context \<Rightarrow> bool" where
  "collects B va coll toks ctx \<longleftrightarrow>
     (\<exists>vs. list_all2 (\<lambda>t v. convert B (Some t) (arg_type va) = Inr v) toks vs \<and>
        ctx_arguments ctx (arg_name va) =
          (case coll (arg_name va) of
             None \<Rightarrow> if vs = [] then Some (arg_default va) else Some (VList vs)
           | Some vs0 \<Rightarrow> Some (VList (vs0 @ vs))))"

text \<open>The value that the result of a parse holds for an option name (an argument name):
  the exception when the parse raised, \<open>None\<close> when the name is no key.\<close>

definition resolved_option :: "exn + 'f Context \<Rightarrow> string \<Rightarrow> exn + 'f val option" where
  "resolved_option r n = (case r of Inl e \<Rightarrow> Inl e | Inr ctx \<Rightarrow> Inr (ctx_options ctx n))"

definition resolved_argument :: "exn + 'f Context \<Rightarrow> string \<Rightarrow> exn + 'f val option" where
  "resolved_argument r n = (case r of Inl e \<Rightarrow> Inl e | Inr ctx \<Rightarrow> Inr (ctx_arguments ctx n))"

subsection \<open>A concrete environment and concrete applications\<close>

text \<open>
  \<^verbatim>\<open>int(s)\<close> on a string of the model: white space around the literal is dropped
  (tab, line feed, vertical tab, form feed, carriage return and space, and the two
  characters beyond ASCII that are white space, next line and no-break space), then come
  an optional sign and decimal digits, with single underscores allowed between two
  digits. (An interpreter that limits the length of integer literals rejects the longer
  ones; the literals of the examples are short.)
\<close>

definition is_space :: "char \<Rightarrow> bool" where
  "is_space c \<longleftrightarrow>
     c \<in> set [CHR 0x09, CHR 0x0A, CHR 0x0B, CHR 0x0C, CHR 0x0D, CHR 0x20, CHR 0x85, CHR 0xA0]"

definition strip :: "string \<Rightarrow> string" where
  "strip s = rev (dropWhile is_space (rev (dropWhile is_space s)))"

definition digit_of :: "char \<Rightarrow> nat option" where
  "digit_of = map_of (zip ''0123456789'' [0, 1, 2, 3, 4, 5, 6, 7, 8, 9])"

fun digits :: "string \<Rightarrow> nat \<Rightarrow> nat option" where
  "digits [] acc = Some acc"
| "digits [c] acc = (case digit_of c of Some d \<Rightarrow> Some (10 * acc + d) | None \<Rightarrow> None)"
| "digits (c # c' # cs) acc =
     (case digit_of c of
        Some d \<Rightarrow> digits (c' # cs) (10 * acc + d)
      | None \<Rightarrow>
          (if c = CHR ''_'' then
             (case digit_of c' of Some d \<Rightarrow> digits cs (10 * acc + d) | None \<Rightarrow> None)
           else None))"

definition unsigned_literal :: "string \<Rightarrow> nat option" where
  "unsigned_literal s =
     (case s of
        [] \<Rightarrow> None
      | c # cs \<Rightarrow> (case digit_of c of Some d \<Rightarrow> digits cs d | None \<Rightarrow> None))"

definition int_literal :: "string \<Rightarrow> int option" where
  "int_literal s =
     (case strip s of
        [] \<Rightarrow> None
      | c # cs \<Rightarrow>
          if c = CHR ''-'' then map_option (\<lambda>n. - int n) (unsigned_literal cs)
          else if c = CHR ''+'' then map_option int (unsigned_literal cs)
          else map_option int (unsigned_literal (c # cs)))"

text \<open>\<^verbatim>\<open>str(e)\<close> for the exceptions of the model, the token quoted as \<^verbatim>\<open>repr\<close>
  quotes a string without quotes or escapes in it. A \<open>ValueError\<close> is raised by
  \<^verbatim>\<open>float\<close> or by \<^verbatim>\<open>int\<close>.\<close>

fun message :: "exn \<Rightarrow> string" where
  "message (ValueError TFloat s) = ''could not convert string to float: '' @ [CHR 0x27] @ s @ [CHR 0x27]"
| "message (ValueError t s) = ''invalid literal for int() with base 10: '' @ [CHR 0x27] @ s @ [CHR 0x27]"
| "message (NameError n) = ''name '' @ [CHR 0x27] @ n @ [CHR 0x27] @ '' is not defined''"
| "message (OtherException m) = m"
| "message (NonException m) = m"

text \<open>The environment of the examples. None of them has a parameter of type
  \<^verbatim>\<open>float\<close>, so the constructor of floats is never called there; it is the one that
  rejects every literal.\<close>

definition no_float :: "string \<Rightarrow> unit option" where
  "no_float s = None"

definition example_builtins :: "unit builtins" where
  "example_builtins = \<lparr>int_of = int_literal, float_of = no_float, str_exc = message\<rparr>"

definition str_option :: "string \<Rightarrow> string \<Rightarrow> unit val \<Rightarrow> unit Option" where
  "str_option n sh d =
     \<lparr>opt_name = n, opt_short = sh, opt_type = TStr, opt_default = d, opt_required = False,
      opt_help = [], opt_multiple = False\<rparr>"

definition int_option :: "string \<Rightarrow> string \<Rightarrow> unit val \<Rightarrow> unit Option" where
  "int_option n sh d =
     \<lparr>opt_name = n, opt_short = sh, opt_type = TInt, opt_default = d, opt_required = False,
      opt_help = [], opt_multiple = False\<rparr>"

definition argument_of :: "string \<Rightarrow> vtype \<Rightarrow> unit val \<Rightarrow> string \<Rightarrow> unit Argument" where
  "argument_of n t d na =
     \<lparr>arg_name = n, arg_type = t, arg_required = True, arg_default = d, arg_help = [],
      arg_nargs = na\<rparr>"

text \<open>The command \<^verbatim>\<open>greet\<close> of the spec's scenario: an option \<^verbatim>\<open>name\<close> (string,
  default \<^verbatim>\<open>"World"\<close>) and an option \<^verbatim>\<open>count\<close> (integer, default 1).\<close>

definition greet_cmd :: "unit Command" where
  "greet_cmd =
     Command ''greet'' (Fn 0) ''Greet someone''
       [str_option ''name'' ''n'' (VStr ''World''), int_option ''count'' ''c'' (VInt 1)] [] []"

definition migrate_cmd :: "unit Command" where
  "migrate_cmd = Command ''migrate'' (Fn 2) ''Run migrations'' [] [] []"

definition db_cmd :: "unit Command" where
  "db_cmd = Command ''db'' (GroupHandler 0) ''Database commands'' [] [] [(''migrate'', migrate_cmd)]"

text \<open>A command with an option, a positional argument and a subcommand.\<close>

definition tool_cmd :: "unit Command" where
  "tool_cmd =
     Command ''tool'' DefaultHandler []
       [str_option ''verbose'' ''v'' (VStr ''no'')]
       [argument_of ''target'' TStr VNone []]
       [(''db'', db_cmd)]"

text \<open>The application of \<^verbatim>\<open>example_usage\<close> after its first registration: the
  command \<^verbatim>\<open>greet\<close> under the root, with the function \<open>Fn 0\<close> as its handler.\<close>

definition example_cli :: "(unit, unit) CLI" where
  "example_cli =
     cli_command ''greet'' ''Greet someone'' (Fn 0)
       (new_CLI ''myapp'' ''1.0.0'' ''My CLI application'')"

text \<open>The command \<^verbatim>\<open>calc\<close> of \<^verbatim>\<open>example_usage\<close>, with the three positional
  arguments its handler reads, and two commands that differ in the name of their one
  option only.\<close>

definition calc_cmd :: "unit Command" where
  "calc_cmd =
     Command ''calc'' (Fn 1) ''Calculator'' []
       [argument_of ''operation'' TStr VNone [], argument_of ''a'' TInt VNone [],
        argument_of ''b'' TInt VNone []] []"

definition count_cmd :: "unit Command" where
  "count_cmd = Command ''run'' (Fn 3) [] [int_option ''count'' ''c'' (VInt 1)] [] []"

definition size_cmd :: "unit Command" where
  "size_cmd = Command ''run'' (Fn 3) [] [int_option ''size'' ''c'' (VInt 1)] [] []"

text \<open>Hooks and handlers for the examples of \<^verbatim>\<open>run\<close>: a hook that raises, a hook
  that prints what it was called for, a handler that prints and returns 0; and three
  applications with the command \<^verbatim>\<open>greet\<close> that register them under different events.\<close>

definition boom_hook :: "(unit, unit) hook" where
  "boom_hook a w = (Some (OtherException ''boom''), w)"

definition log_hook :: "(unit, unit) hook" where
  "log_hook a w =
     (None,
      print_out
        (case a of
           BeforeArgs ts \<Rightarrow> ''before hook''
         | AfterArgs ctx result \<Rightarrow> ''after hook''
         | ErrorArgs e \<Rightarrow> ''error hook: '' @ message e) w)"

definition hello :: "nat \<Rightarrow> unit Context \<Rightarrow> (exn + unit val, unit) effect" where
  "hello k ctx w = (Inr (VInt 0), print_out ''Hello'' w)"

definition silent :: world where
  "silent = \<lparr>stdout = [], stderr = []\<rparr>"

definition before_cli :: "(unit, unit) CLI" where
  "before_cli = add_hook ''error'' log_hook (add_hook ''before'' boom_hook example_cli)"

definition after_cli :: "(unit, unit) CLI" where
  "after_cli = add_hook ''error'' log_hook (add_hook ''after'' boom_hook example_cli)"

definition error_cli :: "(unit, unit) CLI" where
  "error_cli =
     add_hook ''error'' log_hook (add_hook ''error'' boom_hook (add_hook ''after'' log_hook
       (add_hook ''after'' boom_hook example_cli)))"

text \<open>A command whose only Argument is variadic, and one whose last Argument is.\<close>

definition files_cmd :: "unit Command" where
  "files_cmd =
     Command ''add'' (Fn 4) ''Add files''
       [str_option ''message'' ''m'' VNone]
       [argument_of ''files'' TStr VNone ''+''] []"

definition copy_cmd :: "unit Command" where
  "copy_cmd =
     Command ''copy'' (Fn 5) ''Copy files'' []
       [argument_of ''dest'' TStr VNone [], argument_of ''sources'' TStr VNone ''*''] []"

text \<open>A root without options, and a subcommand \<^verbatim>\<open>deploy\<close> with the option
  \<^verbatim>\<open>env\<close>.\<close>

definition deploy_cmd :: "unit Command" where
  "deploy_cmd = Command ''deploy'' (Fn 6) ''Deploy'' [str_option ''env'' ''e'' (VStr ''dev'')] [] []"

definition ship_cmd :: "unit Command" where
  "ship_cmd = Command ''ship'' DefaultHandler [] [] [] [(''deploy'', deploy_cmd)]"

section \<open>Properties\<close>

subsection \<open>The fields of a Context after an update\<close>

lemma ctx_options_set_option: "ctx_options (set_option k v ctx) = (ctx_options ctx)(k \<mapsto> v)"
  by (cases ctx) simp

lemma ctx_options_store_collected: "ctx_options (store_collected collected ctx) = ctx_options ctx"
  by (cases ctx) simp

lemma ctx_options_apply_defaults:
  "ctx_options (apply_defaults cmd ctx) = default_options (cmd_options cmd) (ctx_options ctx)"
  by (cases ctx) simp

lemma set_parent_fields:
  "set_parent q c = Context (ctx_options c) (ctx_arguments c) (Some q) (ctx_command c)"
  by (cases c) simp

subsection \<open>Defaults\<close>

lemma default_options_Nil: "default_options [] m = m"
  by (simp add: default_options_def)

lemma default_options_Cons:
  "default_options (opt # opts) m =
     default_options opts (if m (opt_name opt) = None then m(opt_name opt \<mapsto> opt_default opt) else m)"
  by (simp add: default_options_def)

lemma default_options_apply:
  "default_options opts m k =
     (case m k of
        Some v \<Rightarrow> Some v
      | None \<Rightarrow> map_option opt_default (find (\<lambda>opt. opt_name opt = k) opts))"
proof (induction opts arbitrary: m)
  case Nil
  show ?case by (simp add: default_options_Nil split: option.splits)
next
  case (Cons opt opts)
  show ?case
    by (simp add: default_options_Cons Cons.IH split: option.splits)
qed

lemma default_options_keeps: "m k = Some v \<Longrightarrow> default_options opts m k = Some v"
  by (simp add: default_options_apply)

lemma find_option_name: "find_option cmd key = Some opt \<Longrightarrow> opt_name opt = key"
  by (auto simp: find_option_def find_Some_iff)

subsection \<open>One step of the loop, branch by branch\<close>

lemma takeWhile_upto: "c \<notin> set key \<Longrightarrow> takeWhile (\<lambda>x. x \<noteq> c) (key @ c # v) = key"
  by (induction key) auto

lemma dropWhile_upto: "c \<notin> set key \<Longrightarrow> dropWhile (\<lambda>x. x \<noteq> c) (key @ c # v) = c # v"
  by (induction key) auto

lemma parse_loop_long_eq:
  assumes "take 2 arg = ''--''" and "CHR ''='' \<in> set (drop 2 arg)"
  shows "parse_loop B cmd (arg # rest) arg_idx collected ctx =
     (case find_option cmd (takeWhile (\<lambda>c. c \<noteq> CHR ''='') (drop 2 arg)) of
        None \<Rightarrow> parse_loop B cmd rest arg_idx collected ctx
      | Some opt \<Rightarrow>
          (case convert B (Some (tl (dropWhile (\<lambda>c. c \<noteq> CHR ''='') (drop 2 arg)))) (opt_type opt) of
             Inl e \<Rightarrow> Inl e
           | Inr v \<Rightarrow> parse_loop B cmd rest arg_idx collected (set_option (opt_name opt) v ctx)))"
  by (subst parse_loop.simps) (simp only: assms if_True if_False simp_thms)

lemma parse_loop_long_next:
  assumes "take 2 arg = ''--''" and "CHR ''='' \<notin> set (drop 2 arg)"
  shows "parse_loop B cmd (arg # rest) arg_idx collected ctx =
     (case find_option cmd (drop 2 arg) of
        None \<Rightarrow> parse_loop B cmd (tl rest) arg_idx collected ctx
      | Some opt \<Rightarrow>
          (case convert B (next_value rest) (opt_type opt) of
             Inl e \<Rightarrow> Inl e
           | Inr v \<Rightarrow> parse_loop B cmd (tl rest) arg_idx collected (set_option (opt_name opt) v ctx)))"
  by (subst parse_loop.simps) (simp only: assms if_True if_False simp_thms)

lemma parse_loop_short:
  assumes "take 2 arg \<noteq> ''--''" and "take 1 arg = ''-'' \<and> length arg = 2"
  shows "parse_loop B cmd (arg # rest) arg_idx collected ctx =
     (case find_option_short cmd [arg ! 1] of
        None \<Rightarrow> parse_loop B cmd rest arg_idx collected ctx
      | Some opt \<Rightarrow>
          (case convert B (next_value rest) (opt_type opt) of
             Inl e \<Rightarrow> Inl e
           | Inr v \<Rightarrow> parse_loop B cmd (tl rest) arg_idx collected (set_option (opt_name opt) v ctx)))"
  by (subst parse_loop.simps) (simp only: assms if_True if_False simp_thms)

lemma parse_loop_bare:
  assumes "take 2 arg \<noteq> ''--''" and "\<not> (take 1 arg = ''-'' \<and> length arg = 2)"
  shows "parse_loop B cmd (arg # rest) arg_idx collected ctx =
     (case map_of (cmd_subcommands cmd) arg of
        Some sub \<Rightarrow>
          (case parse_loop B sub rest 0 Map.empty (set_command sub new_Context) of
             Inl e \<Rightarrow> Inl e
           | Inr sub_ctx \<Rightarrow> Inr (set_parent ctx sub_ctx))
      | None \<Rightarrow>
          (if arg_idx < length (cmd_arguments cmd) then
             (if arg_nargs (cmd_arguments cmd ! arg_idx) \<in> set [''*'', ''+''] then
                (case convert B (Some arg) (arg_type (cmd_arguments cmd ! arg_idx)) of
                   Inl e \<Rightarrow> Inl e
                 | Inr v \<Rightarrow>
                     parse_loop B cmd rest arg_idx
                       (collected(arg_name (cmd_arguments cmd ! arg_idx) \<mapsto>
                          (case collected (arg_name (cmd_arguments cmd ! arg_idx)) of
                             None \<Rightarrow> [] | Some vs \<Rightarrow> vs) @ [v]))
                       ctx)
              else
                (case convert B (Some arg) (arg_type (cmd_arguments cmd ! arg_idx)) of
                   Inl e \<Rightarrow> Inl e
                 | Inr v \<Rightarrow>
                     parse_loop B cmd rest (arg_idx + 1) collected
                       (set_argument (arg_name (cmd_arguments cmd ! arg_idx)) v ctx)))
           else parse_loop B cmd rest arg_idx collected ctx))"
  by (subst parse_loop.simps) (simp only: assms if_True if_False simp_thms)

declare parse_loop.simps(2) [simp del]

lemmas example_defs =
  parse_def new_Context_def find_option_def find_option_short_def convert_def construct_def
  next_value_def default_options_def default_arguments_def lower_def lower_char_def
  example_builtins_def int_literal_def unsigned_literal_def digit_of_def strip_def is_space_def
  no_float_def str_option_def int_option_def argument_of_def
  greet_cmd_def migrate_cmd_def db_cmd_def tool_cmd_def

subsection \<open>Subcommand delegation\<close>



subsection \<open>Long options\<close>

text \<open>
  C3, as amended. For every Command, every key without \<^verbatim>\<open>=\<close> (the parser cuts a flag
  at its first \<^verbatim>\<open>=\<close>, so only such a key has a two-token form) and every value \<open>v\<close>:
  whatever state the loop of the Parser is in when it meets the option as a flag
  (positional index, collected sequences, partly built Context), and whatever tokens
  follow, the two tokens \<^verbatim>\<open>--key v\<close> and the one token \<^verbatim>\<open>--key=v\<close> give the same result
  of the parse, the same Context or the same exception, and so the same resolved value for
  the option.
\<close>

theorem long_option_forms_agree:
  assumes "CHR ''='' \<notin> set key"
  shows "parse_loop B cmd ((''--'' @ key) # v # rest) arg_idx collected ctx =
         parse_loop B cmd ((''--'' @ key @ ''='' @ v) # rest) arg_idx collected ctx"
proof -
  let ?stored = "case find_option cmd key of
        None \<Rightarrow> parse_loop B cmd rest arg_idx collected ctx
      | Some opt \<Rightarrow>
          (case convert B (Some v) (opt_type opt) of
             Inl e \<Rightarrow> Inl e
           | Inr x \<Rightarrow> parse_loop B cmd rest arg_idx collected (set_option (opt_name opt) x ctx))"
  have two: "parse_loop B cmd ((''--'' @ key) # v # rest) arg_idx collected ctx = ?stored"
    using assms
    by (subst parse_loop_long_next)
       (simp_all add: next_value_def cong: option.case_cong sum.case_cong)
  have one: "parse_loop B cmd ((''--'' @ key @ ''='' @ v) # rest) arg_idx collected ctx = ?stored"
    using assms
    by (subst parse_loop_long_eq)
       (simp_all add: takeWhile_upto dropWhile_upto cong: option.case_cong sum.case_cong)
  show ?thesis by (simp only: one two)
qed

theorem long_option_forms_agree_witness:
  "CHR ''='' \<notin> set ''name'' \<and>
   parse example_builtins greet_cmd [''--name'', ''Ada'', ''--count'', ''3''] =
   parse example_builtins greet_cmd [''--name=Ada'', ''--count'', ''3''] \<and>
   (\<exists>ctx. parse example_builtins greet_cmd [''--name=Ada'', ''--count'', ''3''] = Inr ctx \<and>
      ctx_options ctx ''name'' = Some (VStr ''Ada'') \<and> ctx_options ctx ''count'' = Some (VInt 3))"
proof -
  have h: "CHR ''='' \<notin> set ''name''" by simp
  have e: "parse example_builtins greet_cmd [''--name'', ''Ada'', ''--count'', ''3''] =
      parse example_builtins greet_cmd [''--name=Ada'', ''--count'', ''3'']"
    using long_option_forms_agree [OF h, of example_builtins greet_cmd "''Ada''"
        "[''--count'', ''3'']" 0 Map.empty "set_command greet_cmd new_Context"]
    by (simp add: parse_def)
  have v: "\<exists>ctx. parse example_builtins greet_cmd [''--name=Ada'', ''--count'', ''3''] = Inr ctx \<and>
      ctx_options ctx ''name'' = Some (VStr ''Ada'') \<and> ctx_options ctx ''count'' = Some (VInt 3)"
    by (simp add: example_defs parse_loop.simps(2))
  from h e v show ?thesis by blast
qed

text \<open>
  The claim C3 as stated, for every surrounding token stream, fails where the token before
  is a long option without \<^verbatim>\<open>=\<close>: it takes the next token as its value, be it
  \<^verbatim>\<open>--name\<close> or \<^verbatim>\<open>--name=Ada\<close>, and the two streams leave different values for the
  option \<^verbatim>\<open>name\<close>.
\<close>

theorem swallowed_flag_forms_differ:
  "resolved_option (parse example_builtins greet_cmd [''--name'', ''--name'', ''Ada'']) ''name'' =
     Inr (Some (VStr ''--name'')) \<and>
   resolved_option (parse example_builtins greet_cmd [''--name'', ''--name=Ada'']) ''name'' =
     Inr (Some (VStr ''--name=Ada''))"
  by (simp add: resolved_option_def example_defs parse_loop.simps(2))

text \<open>
  C8, as amended. For every Command and every key (a name without \<^verbatim>\<open>=\<close>) that is the
  name of none of its Options: whatever state the loop of the Parser of that Command is in
  when it meets the two tokens \<^verbatim>\<open>--key value\<close>, and whatever tokens follow, the result of
  the parse is the result without the two tokens. Both are consumed and dropped. The Command
  is the one whose Parser meets the tokens: after a subcommand token it is the subcommand.
\<close>

theorem unknown_long_option_dropped:
  assumes "CHR ''='' \<notin> set key" and "find_option cmd key = None"
  shows "parse_loop B cmd ((''--'' @ key) # v # rest) arg_idx collected ctx =
         parse_loop B cmd rest arg_idx collected ctx"
  using assms by (subst parse_loop_long_next) simp_all

theorem unknown_long_option_dropped_witness:
  "CHR ''='' \<notin> set ''bogus'' \<and> find_option greet_cmd ''bogus'' = None \<and>
   parse example_builtins greet_cmd [''--bogus'', ''value'', ''--name'', ''Ada''] =
   parse example_builtins greet_cmd [''--name'', ''Ada'']"
proof -
  have h1: "CHR ''='' \<notin> set ''bogus''" by simp
  have h2: "find_option greet_cmd ''bogus'' = None"
    by (simp add: find_option_def greet_cmd_def str_option_def int_option_def)
  show ?thesis
    using h1 h2 unknown_long_option_dropped [OF h1 h2, of example_builtins "''value''"
        "[''--name'', ''Ada'']" 0 Map.empty "set_command greet_cmd new_Context"]
    by (simp add: parse_def)
qed

text \<open>
  The claim C8 as stated, for the Command that is parsed and an insertion anywhere in the
  stream, fails. The root \<^verbatim>\<open>ship\<close> has no option \<^verbatim>\<open>env\<close>; its subcommand
  \<^verbatim>\<open>deploy\<close> has one. Inserted after the token \<^verbatim>\<open>deploy\<close>, the two tokens
  \<^verbatim>\<open>--env prod\<close> are read by the Parser of the subcommand, which stores the value.
\<close>

theorem option_of_subcommand_not_dropped:
  "find_option ship_cmd ''env'' = None \<and>
   resolved_option (parse example_builtins ship_cmd [''deploy'', ''--env'', ''prod'']) ''env'' =
     Inr (Some (VStr ''prod'')) \<and>
   resolved_option (parse example_builtins ship_cmd [''deploy'']) ''env'' =
     Inr (Some (VStr ''dev'')) \<and>
   parse example_builtins ship_cmd [''deploy'', ''--env'', ''prod''] \<noteq>
   parse example_builtins ship_cmd [''deploy'']"
proof -
  have a: "find_option ship_cmd ''env'' = None" by (simp add: find_option_def ship_cmd_def)
  have b: "resolved_option (parse example_builtins ship_cmd [''deploy'', ''--env'', ''prod'']) ''env'' =
     Inr (Some (VStr ''prod''))"
    by (simp add: resolved_option_def example_defs ship_cmd_def deploy_cmd_def parse_loop.simps(2))
  have c: "resolved_option (parse example_builtins ship_cmd [''deploy'']) ''env'' =
     Inr (Some (VStr ''dev''))"
    by (simp add: resolved_option_def example_defs ship_cmd_def deploy_cmd_def parse_loop.simps(2))
  from b c have "parse example_builtins ship_cmd [''deploy'', ''--env'', ''prod''] \<noteq>
   parse example_builtins ship_cmd [''deploy'']"
    by auto
  with a b c show ?thesis by blast
qed

text \<open>
  C10, as amended. For every Command and every key (without \<^verbatim>\<open>=\<close>) that names one of
  its Options: whatever state the loop of the Parser of the Command is in when it meets the
  flag \<^verbatim>\<open>--key\<close> as the last token of the stream, the parse returns a Context in which
  the option is \<^verbatim>\<open>None\<close>, whatever its type and its declared default; the name is a key
  of the options, so \<^verbatim>\<open>_apply_defaults\<close> leaves it alone, and \<^verbatim>\<open>Context.get\<close> gives
  the handler \<^verbatim>\<open>None\<close>, not the default.
\<close>

theorem trailing_long_option_is_None:
  assumes "CHR ''='' \<notin> set key" and "find_option cmd key = Some opt"
  shows "\<exists>ctx'. parse_loop B cmd [''--'' @ key] arg_idx collected ctx = Inr ctx' \<and>
           ctx_options ctx' (opt_name opt) = Some VNone \<and>
           (\<forall>d. ctx_get ctx' (opt_name opt) d = VNone)"
  using assms 
  by (subst parse_loop_long_next)
     (simp_all add: next_value_def convert_def ctx_get_def ctx_options_apply_defaults
        ctx_options_store_collected ctx_options_set_option default_options_keeps)

theorem trailing_long_option_is_None_witness:
  "CHR ''='' \<notin> set ''count'' \<and>
   find_option greet_cmd ''count'' = Some (int_option ''count'' ''c'' (VInt 1)) \<and>
   opt_default (int_option ''count'' ''c'' (VInt 1)) = VInt 1 \<and>
   (\<exists>ctx'. parse example_builtins greet_cmd [''--name'', ''Ada'', ''--count''] = Inr ctx' \<and>
      ctx_options ctx' ''count'' = Some VNone \<and> ctx_get ctx' ''count'' (VInt 1) = VNone)"
proof -
  have h1: "CHR ''='' \<notin> set ''count''" by simp
  have h2: "find_option greet_cmd ''count'' = Some (int_option ''count'' ''c'' (VInt 1))"
    by (simp add: find_option_def greet_cmd_def str_option_def int_option_def)
  have h3: "opt_default (int_option ''count'' ''c'' (VInt 1)) = (VInt 1 :: unit val)"
    by (simp add: int_option_def)
  have n: "opt_name (int_option ''count'' ''c'' (VInt 1)) = ''count''"
    by (simp add: int_option_def)
  have step: "parse example_builtins greet_cmd [''--name'', ''Ada'', ''--count''] =
      parse_loop example_builtins greet_cmd [''--'' @ ''count''] 0 Map.empty
        (set_option ''name'' (VStr ''Ada'') (set_command greet_cmd new_Context))"
    by (simp add: parse_def parse_loop_long_next find_option_def greet_cmd_def str_option_def
        int_option_def next_value_def convert_def construct_def)
  show ?thesis
    using h1 h2 h3 trailing_long_option_is_None [OF h1 h2, of example_builtins 0 Map.empty
        "set_option ''name'' (VStr ''Ada'') (set_command greet_cmd new_Context)"]
    unfolding step n by auto
qed

text \<open>
  The claim C10 as stated, for every stream whose last token is the flag, fails where the
  token before is a long option without \<^verbatim>\<open>=\<close>: the last token is then the value of
  that option and not a flag. After the unknown \<^verbatim>\<open>--bogus\<close> the option \<^verbatim>\<open>name\<close>
  keeps its default; after \<^verbatim>\<open>--name\<close> it holds the string \<^verbatim>\<open>--name\<close>.
\<close>

theorem swallowed_trailing_flag:
  "find_option greet_cmd ''name'' = Some (str_option ''name'' ''n'' (VStr ''World'')) \<and>
   resolved_option (parse example_builtins greet_cmd [''--bogus'', ''--name'']) ''name'' =
     Inr (Some (VStr ''World'')) \<and>
   resolved_option (parse example_builtins greet_cmd [''--name'', ''--name'']) ''name'' =
     Inr (Some (VStr ''--name''))"
  by (simp add: resolved_option_def example_defs parse_loop.simps(2))

subsection \<open>The empty token stream\<close>

lemma default_arguments_Nil: "default_arguments [] m = m"
  by (simp add: default_arguments_def)

lemma default_arguments_Cons:
  "default_arguments (a # as) m =
     default_arguments as (if m (arg_name a) = None then m(arg_name a \<mapsto> arg_default a) else m)"
  by (simp add: default_arguments_def)

lemma default_arguments_apply:
  "default_arguments as m k =
     (case m k of
        Some v \<Rightarrow> Some v
      | None \<Rightarrow> map_option arg_default (find (\<lambda>a. arg_name a = k) as))"
proof (induction as arbitrary: m)
  case Nil
  show ?case by (simp add: default_arguments_Nil split: option.splits)
next
  case (Cons a as)
  show ?case
    by (simp add: default_arguments_Cons Cons.IH split: option.splits)
qed

lemma ctx_arguments_apply_defaults:
  "ctx_arguments (apply_defaults cmd ctx) = default_arguments (cmd_arguments cmd) (ctx_arguments ctx)"
  by (cases ctx) simp

lemma ctx_arguments_store_collected:
  "ctx_arguments (store_collected collected ctx) =
     (\<lambda>n. case collected n of Some vs \<Rightarrow> Some (VList vs) | None \<Rightarrow> ctx_arguments ctx n)"
  by (cases ctx) (simp cong: option.case_cong)

lemma find_distinct_key:
  "distinct (map f xs) \<Longrightarrow> x \<in> set xs \<Longrightarrow> find (\<lambda>y. f y = f x) xs = Some x"
  by (induction xs) force+

text \<open>
  C2. For every Command, the parse of the empty token stream returns a Context (it does not
  raise) whose options hold, under each name, the default of the Option that name denotes
  (the first one declared with it) and nothing else, and whose arguments hold, under each
  name, the default of the Argument of that name. So, the names of the Options being
  distinct as the data model has them, every declared Option maps to its declared default,
  and, the names of the Arguments being distinct, every declared Argument, variadic or
  not, maps to its declared default.
\<close>

theorem empty_stream_defaults:
  "\<exists>ctx. parse B cmd [] = Inr ctx \<and>
     (\<forall>n. ctx_options ctx n = map_option opt_default (find_option cmd n)) \<and>
     (\<forall>n. ctx_arguments ctx n =
        map_option arg_default (find (\<lambda>a. arg_name a = n) (cmd_arguments cmd))) \<and>
     (distinct (map opt_name (cmd_options cmd)) \<longrightarrow>
        (\<forall>opt \<in> set (cmd_options cmd). ctx_options ctx (opt_name opt) = Some (opt_default opt))) \<and>
     (distinct (map arg_name (cmd_arguments cmd)) \<longrightarrow>
        (\<forall>a \<in> set (cmd_arguments cmd). ctx_arguments ctx (arg_name a) = Some (arg_default a)))"
  by (simp add: parse_def new_Context_def default_options_apply default_arguments_apply
      find_option_def find_distinct_key)

theorem empty_stream_defaults_witness:
  "distinct (map opt_name (cmd_options greet_cmd)) \<and>
   distinct (map arg_name (cmd_arguments tool_cmd)) \<and>
   (\<exists>ctx. parse example_builtins greet_cmd [] = Inr ctx \<and>
      ctx_options ctx ''name'' = Some (VStr ''World'') \<and>
      ctx_options ctx ''count'' = Some (VInt 1)) \<and>
   (\<exists>ctx. parse example_builtins tool_cmd [] = Inr ctx \<and>
      ctx_arguments ctx ''target'' = Some VNone)"
proof -
  have h1: "distinct (map opt_name (cmd_options greet_cmd))"
    by (simp add: greet_cmd_def str_option_def int_option_def)
  have h2: "distinct (map arg_name (cmd_arguments tool_cmd))"
    by (simp add: tool_cmd_def argument_of_def)
  have g: "cmd_options greet_cmd =
      [str_option ''name'' ''n'' (VStr ''World''), int_option ''count'' ''c'' (VInt 1)]"
    by (simp add: greet_cmd_def)
  have t: "cmd_arguments tool_cmd = [argument_of ''target'' TStr VNone []]"
    by (simp add: tool_cmd_def)
  from empty_stream_defaults [of example_builtins greet_cmd] h1
  have a: "\<exists>ctx. parse example_builtins greet_cmd [] = Inr ctx \<and>
      ctx_options ctx ''name'' = Some (VStr ''World'') \<and>
      ctx_options ctx ''count'' = Some (VInt 1)"
    unfolding g by (auto simp: str_option_def int_option_def)
  from empty_stream_defaults [of example_builtins tool_cmd] h2
  have b: "\<exists>ctx. parse example_builtins tool_cmd [] = Inr ctx \<and>
      ctx_arguments ctx ''target'' = Some VNone"
    unfolding t by (auto simp: argument_of_def)
  from h1 h2 a b show ?thesis by blast
qed

subsection \<open>Registration of an argument\<close>

text \<open>
  C9. For every CLI and every function that is the handler of a direct child of the root,
  the decorator \<^verbatim>\<open>argument\<close>, applied with any name, type, required flag, help text and
  nargs, raises \<^verbatim>\<open>NameError\<close> for the unbound name \<^verbatim>\<open>rue\<close>: no Argument is appended
  and the handler is not returned. The claim (the descriptor is appended, nothing is
  raised) does not hold of the code.
\<close>

theorem argument_decorator_raises:
  assumes "find_command_for_handler cli fn = Some cmd"
  shows "cli_argument name typ required help nargs fn cli = Inl (NameError ''rue'')"
  using assms by (simp add: cli_argument_def)

theorem argument_decorator_raises_witness:
  "find_command_for_handler example_cli (Fn 0) = Some (Command ''greet'' (Fn 0) ''Greet someone'' [] [] []) \<and>
   cli_argument ''name'' TStr True ''Who to greet'' [] (Fn 0) example_cli = Inl (NameError ''rue'')"
proof -
  have h: "find_command_for_handler example_cli (Fn 0) =
      Some (Command ''greet'' (Fn 0) ''Greet someone'' [] [] [])"
    by (simp add: find_command_for_handler_def example_cli_def cli_command_def new_CLI_def)
  from h argument_decorator_raises [OF h] show ?thesis by blast
qed

text \<open>The decorator \<^verbatim>\<open>option\<close>, on the same application, does append the
  descriptor with the fields it is given.\<close>

lemma option_decorator_appends:
  "\<exists>cli'. cli_option ''name'' ''n'' TStr (VStr ''World'') False ''Who to greet'' (Fn 0) example_cli
       = Inr (Fn 0, cli') \<and>
     map_option cmd_options (find_command_for_handler cli' (Fn 0)) =
       Some [\<lparr>opt_name = ''name'', opt_short = ''n'', opt_type = TStr, opt_default = VStr ''World'',
              opt_required = False, opt_help = ''Who to greet'', opt_multiple = False\<rparr>]"
  by (simp add: cli_option_def find_command_for_handler_def example_cli_def cli_command_def new_CLI_def)

subsection \<open>Fully populated options\<close>

lemma good_mono: "good rest ctx \<Longrightarrow> set rest \<subseteq> set ts \<Longrightarrow> good ts ctx"
  by (auto simp: good_def unset_default_def split: option.splits)

lemma level_ok_mono: "level_ok cmd rest ctx0 ctx \<Longrightarrow> set rest \<subseteq> set ts \<Longrightarrow> level_ok cmd ts ctx0 ctx"
  unfolding level_ok_def by blast

lemma level_ok_good: "level_ok cmd ts ctx0 ctx \<Longrightarrow> ctx_options ctx0 = Map.empty \<Longrightarrow> good ts ctx"
  by (auto simp: level_ok_def good_def populated_def unset_default_def list_all_iff)

lemma level_ok_set_option:
  assumes "level_ok cmd rest (set_option m v ctx0) ctx" and "set rest \<subseteq> set ts"
    and "\<And>n. \<forall>tok \<in> set ts. \<not> sets_option cmd tok n \<Longrightarrow> n \<noteq> m"
  shows "level_ok cmd ts ctx0 ctx"
  using assms unfolding level_ok_def ctx_options_set_option
  by (metis (no_types, lifting) fun_upd_apply subsetD)

lemma level_ok_set_argument:
  assumes "level_ok cmd rest (set_argument k v ctx0) ctx" and "set rest \<subseteq> set ts"
  shows "level_ok cmd ts ctx0 ctx"
proof -
  have "ctx_options (set_argument k v ctx0) = ctx_options ctx0" by (cases ctx0) simp
  with assms show ?thesis unfolding level_ok_def by (metis subsetD)
qed

lemma ctx_command_apply_defaults: "ctx_command (apply_defaults cmd ctx) = ctx_command ctx"
  by (cases ctx) simp

lemma ctx_command_store_collected: "ctx_command (store_collected coll ctx) = ctx_command ctx"
  by (cases ctx) simp

lemma find_member_Some: "x \<in> set xs \<Longrightarrow> P x \<Longrightarrow> find P xs \<noteq> None"
  by (simp add: find_None_iff) blast

lemma level_ok_Nil:
  assumes "ctx_command ctx0 = Some cmd"
  shows "level_ok cmd [] ctx0 (apply_defaults cmd (store_collected coll ctx0))"
proof -
  have "default_options (cmd_options cmd) (ctx_options ctx0) (opt_name opt) \<noteq> None"
    if "opt \<in> set (cmd_options cmd)" for opt
    using find_member_Some [OF that, of "\<lambda>x. opt_name x = opt_name opt"]
    by (auto simp: default_options_apply split: option.splits)
  then show ?thesis
    using assms
    by (simp add: level_ok_def ctx_command_apply_defaults ctx_command_store_collected
      ctx_options_apply_defaults ctx_options_store_collected default_options_apply find_option_def)
qed

lemma good_set_parent: "good ts ctx \<Longrightarrow> good ts (set_parent q ctx)"
  by (auto simp: good_def populated_def unset_default_def set_parent_fields split: option.splits)

lemma set_tl_subset: "set (tl xs) \<subseteq> set xs"
  by (cases xs) auto

lemma sets_option_long:
  assumes "take 2 tok = ''--''" and "\<forall>t \<in> set (tok # rest). \<not> sets_option cmd t n"
  shows "n \<noteq> takeWhile (\<lambda>c. c \<noteq> CHR ''='') (drop 2 tok)"
  using assms by (auto simp: sets_option_def)

lemma takeWhile_all: "c \<notin> set key \<Longrightarrow> takeWhile (\<lambda>x. x \<noteq> c) key = key"
  by (induction key) auto

lemma sets_option_short:
  assumes "take 1 tok = ''-'' \<and> length tok = 2" and "find_option_short cmd [tok ! 1] = Some opt"
    and "\<forall>t \<in> set (tok # rest). \<not> sets_option cmd t n"
  shows "n \<noteq> opt_name opt"
  using assms by (auto simp: sets_option_def)

lemma loop_level_or_good:
  "parse_loop B cmd ts arg_idx collected ctx0 = Inr ctx \<Longrightarrow> ctx_command ctx0 = Some cmd \<Longrightarrow>
     good ts ctx \<or> level_ok cmd ts ctx0 ctx"
proof (induction ts arbitrary: B cmd arg_idx collected ctx0 ctx rule: length_induct)
  case (1 ts)
  note IH = "1.IH" [rule_format]
  note res = "1.prems"(1)
  note cm = "1.prems"(2)
  show ?case
  proof (cases ts)
    case Nil
    with res cm show ?thesis using level_ok_Nil [OF cm, of collected] by auto
  next
    case (Cons tok rest)
    have sub1: "set rest \<subseteq> set ts" and sub2: "set (tl rest) \<subseteq> set ts"
      using Cons set_tl_subset [of rest] by auto
    have len1: "length rest < length ts" and len2: "length (tl rest) < length ts"
      using Cons by auto
    have same: "good ts ctx \<or> level_ok cmd ts ctx0 ctx"
      if "parse_loop B cmd ys i c ctx0 = Inr ctx" "length ys < length ts" "set ys \<subseteq> set ts"
      for ys i c
      using IH [OF that(2) that(1) cm] that(3) good_mono level_ok_mono by blast
    have stored: "good ts ctx \<or> level_ok cmd ts ctx0 ctx"
      if "parse_loop B cmd ys i c (set_option m v ctx0) = Inr ctx" "length ys < length ts"
        "set ys \<subseteq> set ts" "\<And>n. \<forall>t \<in> set ts. \<not> sets_option cmd t n \<Longrightarrow> n \<noteq> m"
      for ys i c m v
    proof -
      have "ctx_command (set_option m v ctx0) = Some cmd" using cm by (cases ctx0) simp
      from IH [OF that(2) that(1) this] show ?thesis
        using that(3,4) good_mono level_ok_set_option by blast
    qed
    have bound: "good ts ctx \<or> level_ok cmd ts ctx0 ctx"
      if "parse_loop B cmd ys i c (set_argument k v ctx0) = Inr ctx" "length ys < length ts"
        "set ys \<subseteq> set ts"
      for ys i c k v
    proof -
      have "ctx_command (set_argument k v ctx0) = Some cmd" using cm by (cases ctx0) simp
      from IH [OF that(2) that(1) this] show ?thesis
        using that(3) good_mono level_ok_set_argument by blast
    qed
    consider (long_eq) "take 2 tok = ''--''" "CHR ''='' \<in> set (drop 2 tok)"
      | (long_next) "take 2 tok = ''--''" "CHR ''='' \<notin> set (drop 2 tok)"
      | (short) "take 2 tok \<noteq> ''--''" "take 1 tok = ''-'' \<and> length tok = 2"
      | (bare) "take 2 tok \<noteq> ''--''" "\<not> (take 1 tok = ''-'' \<and> length tok = 2)"
      by blast
    then show ?thesis
    proof cases
      case long_eq
      show ?thesis
      proof (cases "find_option cmd (takeWhile (\<lambda>c. c \<noteq> CHR ''='') (drop 2 tok))")
        case None
        with res Cons long_eq have "parse_loop B cmd rest arg_idx collected ctx0 = Inr ctx"
          by (simp add: parse_loop_long_eq)
        from same [OF this len1 sub1] show ?thesis .
      next
        case (Some opt)
        with res Cons long_eq obtain v where
          "parse_loop B cmd rest arg_idx collected (set_option (opt_name opt) v ctx0) = Inr ctx"
          by (auto simp: parse_loop_long_eq split: sum.splits)
        from stored [OF this len1 sub1] show ?thesis
          using sets_option_long [OF long_eq(1)] find_option_name [OF Some] Cons by blast
      qed
    next
      case long_next
      show ?thesis
      proof (cases "find_option cmd (drop 2 tok)")
        case None
        with res Cons long_next have "parse_loop B cmd (tl rest) arg_idx collected ctx0 = Inr ctx"
          by (simp add: parse_loop_long_next)
        from same [OF this len2 sub2] show ?thesis .
      next
        case (Some opt)
        with res Cons long_next obtain v where
          "parse_loop B cmd (tl rest) arg_idx collected (set_option (opt_name opt) v ctx0) = Inr ctx"
          by (auto simp: parse_loop_long_next split: sum.splits)
        from stored [OF this len2 sub2] show ?thesis
          using sets_option_long [OF long_next(1)] find_option_name [OF Some] Cons
            takeWhile_all [OF long_next(2)] by metis
      qed
    next
      case short
      show ?thesis
      proof (cases "find_option_short cmd [tok ! 1]")
        case None
        with res Cons short have "parse_loop B cmd rest arg_idx collected ctx0 = Inr ctx"
          by (simp add: parse_loop_short)
        from same [OF this len1 sub1] show ?thesis .
      next
        case (Some opt)
        with res Cons short obtain v where
          "parse_loop B cmd (tl rest) arg_idx collected (set_option (opt_name opt) v ctx0) = Inr ctx"
          by (auto simp: parse_loop_short split: sum.splits)
        from stored [OF this len2 sub2] show ?thesis
          using sets_option_short [OF short(2) Some] Cons by blast
      qed
    next
      case bare
      show ?thesis
      proof (cases "map_of (cmd_subcommands cmd) tok")
        case (Some sub)
        with res Cons bare obtain sub_ctx where
          s: "parse_loop B sub rest 0 Map.empty (set_command sub new_Context) = Inr sub_ctx"
          and c: "ctx = set_parent ctx0 sub_ctx"
          by (auto simp: parse_loop_bare split: sum.splits)
        have "ctx_command (set_command sub new_Context) = Some sub"
          by (simp add: new_Context_def)
        from IH [OF len1 s this] have "good rest sub_ctx"
          using level_ok_good [of sub rest "set_command sub new_Context" sub_ctx]
          by (auto simp: new_Context_def)
        then show ?thesis using c good_set_parent good_mono sub1 by blast
      next
        case None
        note res' = res [unfolded Cons parse_loop_bare [OF bare] None option.case]
        show ?thesis
        proof (cases "arg_idx < length (cmd_arguments cmd)")
          case False
          with res' have "parse_loop B cmd rest arg_idx collected ctx0 = Inr ctx" by simp
          from same [OF this len1 sub1] show ?thesis .
        next
          case True
          show ?thesis
          proof (cases "arg_nargs (cmd_arguments cmd ! arg_idx) \<in> set [''*'', ''+'']")
            case v: True
            with res' True obtain c where "parse_loop B cmd rest arg_idx c ctx0 = Inr ctx"
              by (auto split: sum.splits)
            from same [OF this len1 sub1] show ?thesis .
          next
            case v: False
            with res' True obtain k x where
              "parse_loop B cmd rest (arg_idx + 1) collected (set_argument k x ctx0) = Inr ctx"
              by (auto split: sum.splits)
            from bound [OF this len1 sub1] show ?thesis .
          qed
        qed
      qed
    qed
  qed
qed

lemma ctx_parent_apply_defaults: "ctx_parent (apply_defaults cmd ctx) = ctx_parent ctx"
  by (cases ctx) simp

lemma ctx_parent_store_collected: "ctx_parent (store_collected coll ctx) = ctx_parent ctx"
  by (cases ctx) simp

lemma set_option_other_fields:
  "ctx_parent (set_option k v ctx) = ctx_parent ctx"
  "ctx_command (set_option k v ctx) = ctx_command ctx"
  by (cases ctx, simp)+

lemma set_argument_other_fields:
  "ctx_parent (set_argument k v ctx) = ctx_parent ctx"
  "ctx_command (set_argument k v ctx) = ctx_command ctx"
  "ctx_options (set_argument k v ctx) = ctx_options ctx"
  by (cases ctx, simp)+

lemma parent_ok_mono: "parent_ok cmd rest ctx0 p \<Longrightarrow> set rest \<subseteq> set ts \<Longrightarrow> parent_ok cmd ts ctx0 p"
  unfolding parent_ok_def by blast

lemma parent_ok_set_option:
  assumes "parent_ok cmd rest (set_option m v ctx0) p" and "set rest \<subseteq> set ts"
    and "\<And>n. \<forall>tok \<in> set ts. \<not> sets_option cmd tok n \<Longrightarrow> n \<noteq> m"
  shows "parent_ok cmd ts ctx0 p"
  using assms unfolding parent_ok_def ctx_options_set_option set_option_other_fields
  by (metis (no_types, lifting) fun_upd_apply subsetD)

lemma parent_ok_set_argument:
  assumes "parent_ok cmd rest (set_argument k v ctx0) p" and "set rest \<subseteq> set ts"
  shows "parent_ok cmd ts ctx0 p"
  using assms unfolding parent_ok_def set_argument_other_fields by (metis subsetD)

lemma loop_parent:
  "parse_loop B cmd ts arg_idx collected ctx0 = Inr ctx \<Longrightarrow> ctx_parent ctx0 = None \<Longrightarrow>
     ctx_parent ctx = Some p \<Longrightarrow> parent_ok cmd ts ctx0 p"
proof (induction ts arbitrary: arg_idx collected ctx0 rule: length_induct)
  case (1 ts)
  have IH: "parent_ok cmd ys x p"
    if "length ys < length ts" "parse_loop B cmd ys i c x = Inr ctx" "ctx_parent x = None"
    for ys i c x
    using "1.IH" that "1.prems"(3) by blast
  note res = "1.prems"(1) and np = "1.prems"(2) and par = "1.prems"(3)
  show ?case
  proof (cases ts)
    case Nil
    with res np par show ?thesis
      by (auto simp: ctx_parent_apply_defaults ctx_parent_store_collected)
  next
    case (Cons tok rest)
    have sub1: "set rest \<subseteq> set ts" and sub2: "set (tl rest) \<subseteq> set ts"
      using Cons set_tl_subset [of rest] by auto
    have len1: "length rest < length ts" and len2: "length (tl rest) < length ts"
      using Cons by auto
    have same: "parent_ok cmd ts ctx0 p"
      if "parse_loop B cmd ys i c ctx0 = Inr ctx" "length ys < length ts" "set ys \<subseteq> set ts"
      for ys i c
      using IH [OF that(2) that(1) np] that(3) parent_ok_mono by blast
    have stored: "parent_ok cmd ts ctx0 p"
      if "parse_loop B cmd ys i c (set_option m v ctx0) = Inr ctx" "length ys < length ts"
        "set ys \<subseteq> set ts" "\<And>n. \<forall>t \<in> set ts. \<not> sets_option cmd t n \<Longrightarrow> n \<noteq> m"
      for ys i c m v
    proof -
      have "ctx_parent (set_option m v ctx0) = None" using np by (simp add: set_option_other_fields)
      from IH [OF that(2) that(1) this] show ?thesis
        using that(3,4) parent_ok_set_option by blast
    qed
    have bound: "parent_ok cmd ts ctx0 p"
      if "parse_loop B cmd ys i c (set_argument k v ctx0) = Inr ctx" "length ys < length ts"
        "set ys \<subseteq> set ts"
      for ys i c k v
    proof -
      have "ctx_parent (set_argument k v ctx0) = None" using np by (simp add: set_argument_other_fields)
      from IH [OF that(2) that(1) this] show ?thesis
        using that(3) parent_ok_set_argument by blast
    qed
    consider (long_eq) "take 2 tok = ''--''" "CHR ''='' \<in> set (drop 2 tok)"
      | (long_next) "take 2 tok = ''--''" "CHR ''='' \<notin> set (drop 2 tok)"
      | (short) "take 2 tok \<noteq> ''--''" "take 1 tok = ''-'' \<and> length tok = 2"
      | (bare) "take 2 tok \<noteq> ''--''" "\<not> (take 1 tok = ''-'' \<and> length tok = 2)"
      by blast
    then show ?thesis
    proof cases
      case long_eq
      show ?thesis
      proof (cases "find_option cmd (takeWhile (\<lambda>c. c \<noteq> CHR ''='') (drop 2 tok))")
        case None
        with res Cons long_eq have "parse_loop B cmd rest arg_idx collected ctx0 = Inr ctx"
          by (simp add: parse_loop_long_eq)
        from same [OF this len1 sub1] show ?thesis .
      next
        case (Some opt)
        with res Cons long_eq obtain v where
          "parse_loop B cmd rest arg_idx collected (set_option (opt_name opt) v ctx0) = Inr ctx"
          by (auto simp: parse_loop_long_eq split: sum.splits)
        from stored [OF this len1 sub1] show ?thesis
          using sets_option_long [OF long_eq(1)] find_option_name [OF Some] Cons by blast
      qed
    next
      case long_next
      show ?thesis
      proof (cases "find_option cmd (drop 2 tok)")
        case None
        with res Cons long_next have "parse_loop B cmd (tl rest) arg_idx collected ctx0 = Inr ctx"
          by (simp add: parse_loop_long_next)
        from same [OF this len2 sub2] show ?thesis .
      next
        case (Some opt)
        with res Cons long_next obtain v where
          "parse_loop B cmd (tl rest) arg_idx collected (set_option (opt_name opt) v ctx0) = Inr ctx"
          by (auto simp: parse_loop_long_next split: sum.splits)
        from stored [OF this len2 sub2] show ?thesis
          using sets_option_long [OF long_next(1)] find_option_name [OF Some] Cons
            takeWhile_all [OF long_next(2)] by metis
      qed
    next
      case short
      show ?thesis
      proof (cases "find_option_short cmd [tok ! 1]")
        case None
        with res Cons short have "parse_loop B cmd rest arg_idx collected ctx0 = Inr ctx"
          by (simp add: parse_loop_short)
        from same [OF this len1 sub1] show ?thesis .
      next
        case (Some opt)
        with res Cons short obtain v where
          "parse_loop B cmd (tl rest) arg_idx collected (set_option (opt_name opt) v ctx0) = Inr ctx"
          by (auto simp: parse_loop_short split: sum.splits)
        from stored [OF this len2 sub2] show ?thesis
          using sets_option_short [OF short(2) Some] Cons by blast
      qed
    next
      case bare
      show ?thesis
      proof (cases "map_of (cmd_subcommands cmd) tok")
        case (Some sub)
        with res Cons bare obtain sub_ctx where c: "ctx = set_parent ctx0 sub_ctx"
          by (auto simp: parse_loop_bare split: sum.splits)
        with par have "p = ctx0" by (simp add: set_parent_fields)
        with np show ?thesis by (simp add: parent_ok_def)
      next
        case None
        note res' = res [unfolded Cons parse_loop_bare [OF bare] None option.case]
        show ?thesis
        proof (cases "arg_idx < length (cmd_arguments cmd)")
          case False
          with res' have "parse_loop B cmd rest arg_idx collected ctx0 = Inr ctx" by simp
          from same [OF this len1 sub1] show ?thesis .
        next
          case True
          show ?thesis
          proof (cases "arg_nargs (cmd_arguments cmd ! arg_idx) \<in> set [''*'', ''+'']")
            case v: True
            with res' True obtain c where "parse_loop B cmd rest arg_idx c ctx0 = Inr ctx"
              by (auto split: sum.splits)
            from same [OF this len1 sub1] show ?thesis .
          next
            case v: False
            with res' True obtain k x where
              "parse_loop B cmd rest (arg_idx + 1) collected (set_argument k x ctx0) = Inr ctx"
              by (auto split: sum.splits)
            from bound [OF this len1 sub1] show ?thesis .
          qed
        qed
      qed
    qed
  qed
qed

text \<open>
  C5, as amended. For every Context that a parse returns: its command is set, every
  Option declared on that Command is a key of its options, and a name for
  which the stream has no flag (no long option with that key, no short option that the
  Command resolves to that name) holds the declared default of the Option of that name.
  The parent is not populated: when the returned Context has a parent, the command of the
  parent is the Command that was parsed, the parent has no parent of its own, and a name
  for which the stream has no flag is no key of its options, whatever default is declared.
\<close>

theorem returned_context_populated:
  assumes "parse B cmd ts = Inr ctx"
  shows "(\<exists>c. ctx_command ctx = Some c \<and>
            (\<forall>opt \<in> set (cmd_options c). ctx_options ctx (opt_name opt) \<noteq> None) \<and>
            (\<forall>n. (\<forall>tok \<in> set ts. \<not> sets_option c tok n) \<longrightarrow>
               ctx_options ctx n = map_option opt_default (find_option c n))) \<and>
         (\<forall>p. ctx_parent ctx = Some p \<longrightarrow>
            ctx_command p = Some cmd \<and> ctx_parent p = None \<and>
            (\<forall>n. (\<forall>tok \<in> set ts. \<not> sets_option cmd tok n) \<longrightarrow> ctx_options p n = None))"
proof (intro conjI allI impI)
  have c: "ctx_command (set_command cmd new_Context) = Some cmd"
    by (simp add: new_Context_def)
  have "good ts ctx"
    using loop_level_or_good [OF assms [unfolded parse_def] c]
      level_ok_good [of cmd ts "set_command cmd new_Context" ctx]
    by (auto simp: new_Context_def)
  then show "\<exists>c. ctx_command ctx = Some c \<and>
            (\<forall>opt \<in> set (cmd_options c). ctx_options ctx (opt_name opt) \<noteq> None) \<and>
            (\<forall>n. (\<forall>tok \<in> set ts. \<not> sets_option c tok n) \<longrightarrow>
               ctx_options ctx n = map_option opt_default (find_option c n))"
    by (auto simp: good_def populated_def unset_default_def list_all_iff split: option.splits)
next
  fix p
  assume par: "ctx_parent ctx = Some p"
  have n: "ctx_parent (set_command cmd new_Context) = None"
    by (simp add: new_Context_def)
  from loop_parent [OF assms [unfolded parse_def] n par]
  have ok: "parent_ok cmd ts (set_command cmd new_Context) p" .
  then show "ctx_command p = Some cmd" by (simp add: parent_ok_def new_Context_def)
  from ok show "ctx_parent p = None" by (simp add: parent_ok_def)
  fix n
  assume "\<forall>tok \<in> set ts. \<not> sets_option cmd tok n"
  with ok show "ctx_options p n = None" by (simp add: parent_ok_def new_Context_def)
qed

theorem returned_context_populated_witness:
  "(\<exists>ctx. parse example_builtins greet_cmd [''--name'', ''Ada''] = Inr ctx \<and>
     ctx_command ctx = Some greet_cmd \<and>
     ctx_options ctx ''name'' \<noteq> None \<and>
     (\<forall>tok \<in> set [''--name'', ''Ada'']. \<not> sets_option greet_cmd tok ''count'') \<and>
     ctx_options ctx ''count'' = Some (VInt 1)) \<and>
   (\<exists>ctx p. parse example_builtins tool_cmd [''db'', ''migrate''] = Inr ctx \<and>
     ctx_parent ctx = Some p \<and>
     (\<forall>tok \<in> set [''db'', ''migrate'']. \<not> sets_option tool_cmd tok ''verbose'') \<and>
     ctx_command p = Some tool_cmd \<and> ctx_parent p = None \<and> ctx_options p ''verbose'' = None)"
proof -
  obtain ctx where p: "parse example_builtins greet_cmd [''--name'', ''Ada''] = Inr ctx"
    and c: "ctx_command ctx = Some greet_cmd"
    by (simp add: example_defs parse_loop.simps(2))
  have u: "\<forall>tok \<in> set [''--name'', ''Ada'']. \<not> sets_option greet_cmd tok ''count''"
    by (simp add: sets_option_def)
  have o: "str_option ''name'' ''n'' (VStr ''World'') \<in> set (cmd_options greet_cmd)"
    by (simp add: greet_cmd_def)
  have d: "map_option opt_default (find_option greet_cmd ''count'') = Some (VInt 1)"
    by (simp add: find_option_def greet_cmd_def str_option_def int_option_def)
  from returned_context_populated [OF p] c
  have "\<forall>opt \<in> set (cmd_options greet_cmd). ctx_options ctx (opt_name opt) \<noteq> None"
    and "\<forall>n. (\<forall>tok \<in> set [''--name'', ''Ada'']. \<not> sets_option greet_cmd tok n) \<longrightarrow>
        ctx_options ctx n = map_option opt_default (find_option greet_cmd n)"
    by auto
  with o u d have "ctx_options ctx ''name'' \<noteq> None" and "ctx_options ctx ''count'' = Some (VInt 1)"
    by (auto simp: str_option_def)
  with p c u have first: "\<exists>ctx. parse example_builtins greet_cmd [''--name'', ''Ada''] = Inr ctx \<and>
     ctx_command ctx = Some greet_cmd \<and>
     ctx_options ctx ''name'' \<noteq> None \<and>
     (\<forall>tok \<in> set [''--name'', ''Ada'']. \<not> sets_option greet_cmd tok ''count'') \<and>
     ctx_options ctx ''count'' = Some (VInt 1)"
    by blast
  obtain ctx' q where p': "parse example_builtins tool_cmd [''db'', ''migrate''] = Inr ctx'"
    and q: "ctx_parent ctx' = Some q"
    by (simp add: example_defs parse_loop.simps(2))
  have u': "\<forall>tok \<in> set [''db'', ''migrate'']. \<not> sets_option tool_cmd tok ''verbose''"
    by (simp add: sets_option_def)
  from returned_context_populated [OF p'] q u'
  have "ctx_command q = Some tool_cmd \<and> ctx_parent q = None \<and> ctx_options q ''verbose'' = None"
    by blast
  with p' q u' have second: "\<exists>ctx p. parse example_builtins tool_cmd [''db'', ''migrate''] = Inr ctx \<and>
     ctx_parent ctx = Some p \<and>
     (\<forall>tok \<in> set [''db'', ''migrate'']. \<not> sets_option tool_cmd tok ''verbose'') \<and>
     ctx_command p = Some tool_cmd \<and> ctx_parent p = None \<and> ctx_options p ''verbose'' = None"
    by blast
  from first second show ?thesis by blast
qed

text \<open>
  The claim C5 as stated, with the parent Contexts, fails. The root \<^verbatim>\<open>tool\<close> declares the
  option \<^verbatim>\<open>verbose\<close>; on the stream \<^verbatim>\<open>db\<close> the Parser of the root returns at the
  subcommand, before \<^verbatim>\<open>_apply_defaults\<close>, and the Context it leaves as the parent has
  no option at all.
\<close>

theorem parent_context_not_populated:
  "parse example_builtins tool_cmd [''db''] =
     Inr (Context Map.empty Map.empty
            (Some (Context Map.empty Map.empty None (Some tool_cmd))) (Some db_cmd)) \<and>
   \<not> chain_populated example_builtins tool_cmd [''db'']"
  by (simp add: chain_populated_def populated_def example_defs parse_loop.simps(2))

subsection \<open>Malformed numeric literals\<close>

lemma convert_malformed: "malformed B typ tok \<Longrightarrow> convert B (Some tok) typ = Inl (ValueError typ tok)"
  by (auto simp: malformed_def convert_def construct_def)

text \<open>
  C6, as amended. For every Option or Argument of a numeric type (integer or float) and
  every literal that the constructor of the type rejects: when the loop converts the
  literal for it (as the value of the long option in either form, as the value of the
  short option, or as the positional token of the Argument at the positional index), the
  parse fails, and the exception is the \<^verbatim>\<open>ValueError\<close> of the constructor, which
  carries the literal and the type. It does not depend on the name of the Option or
  Argument, and it is not a \<^verbatim>\<open>ConversionError\<close>: the code has no such class.
\<close>

theorem malformed_numeric_raises:
  assumes "malformed B typ tok"
  shows
    "(\<forall>key opt. CHR ''='' \<notin> set key \<and> find_option cmd key = Some opt \<and> opt_type opt = typ \<longrightarrow>
        parse_loop B cmd ((''--'' @ key) # tok # rest) arg_idx collected ctx = Inl (ValueError typ tok) \<and>
        parse_loop B cmd ((''--'' @ key @ ''='' @ tok) # rest) arg_idx collected ctx = Inl (ValueError typ tok)) \<and>
     (\<forall>x opt. x \<noteq> CHR ''-'' \<and> find_option_short cmd [x] = Some opt \<and> opt_type opt = typ \<longrightarrow>
        parse_loop B cmd ([CHR ''-'', x] # tok # rest) arg_idx collected ctx = Inl (ValueError typ tok)) \<and>
     (take 2 tok \<noteq> ''--'' \<and> \<not> (take 1 tok = ''-'' \<and> length tok = 2) \<and>
      map_of (cmd_subcommands cmd) tok = None \<and> arg_idx < length (cmd_arguments cmd) \<and>
      arg_type (cmd_arguments cmd ! arg_idx) = typ \<longrightarrow>
        parse_loop B cmd (tok # rest) arg_idx collected ctx = Inl (ValueError typ tok))"
proof (intro conjI allI impI)
  fix key opt
  assume h: "CHR ''='' \<notin> set key \<and> find_option cmd key = Some opt \<and> opt_type opt = typ"
  then show "parse_loop B cmd ((''--'' @ key) # tok # rest) arg_idx collected ctx = Inl (ValueError typ tok)"
    using convert_malformed [OF assms]
    by (subst parse_loop_long_next) (simp_all add: next_value_def)
  from h show "parse_loop B cmd ((''--'' @ key @ ''='' @ tok) # rest) arg_idx collected ctx = Inl (ValueError typ tok)"
    using convert_malformed [OF assms]
    by (subst parse_loop_long_eq) (simp_all add: takeWhile_upto dropWhile_upto)
next
  fix x opt
  assume h: "x \<noteq> CHR ''-'' \<and> find_option_short cmd [x] = Some opt \<and> opt_type opt = typ"
  then show "parse_loop B cmd ([CHR ''-'', x] # tok # rest) arg_idx collected ctx = Inl (ValueError typ tok)"
    using convert_malformed [OF assms]
    by (subst parse_loop_short) (simp_all add: next_value_def)
next
  assume h: "take 2 tok \<noteq> ''--'' \<and> \<not> (take 1 tok = ''-'' \<and> length tok = 2) \<and>
      map_of (cmd_subcommands cmd) tok = None \<and> arg_idx < length (cmd_arguments cmd) \<and>
      arg_type (cmd_arguments cmd ! arg_idx) = typ"
  then have b: "take 2 tok \<noteq> ''--''" "\<not> (take 1 tok = ''-'' \<and> length tok = 2)" by blast+
  from h show "parse_loop B cmd (tok # rest) arg_idx collected ctx = Inl (ValueError typ tok)"
    using convert_malformed [OF assms]
    by (simp add: parse_loop_bare [OF b])
qed

theorem malformed_numeric_raises_witness:
  "malformed example_builtins TInt ''abc'' \<and>
   CHR ''='' \<notin> set ''count'' \<and>
   find_option greet_cmd ''count'' = Some (int_option ''count'' ''c'' (VInt 1)) \<and>
   opt_type (int_option ''count'' ''c'' (VInt 1)) = TInt \<and>
   parse example_builtins greet_cmd [''--count'', ''abc''] = Inl (ValueError TInt ''abc'') \<and>
   parse example_builtins greet_cmd [''--count=abc''] = Inl (ValueError TInt ''abc'') \<and>
   CHR ''c'' \<noteq> CHR ''-'' \<and>
   find_option_short greet_cmd ''c'' = Some (int_option ''count'' ''c'' (VInt 1)) \<and>
   parse example_builtins greet_cmd [''-c'', ''abc''] = Inl (ValueError TInt ''abc'') \<and>
   take 2 ''abc'' \<noteq> ''--'' \<and> \<not> (take 1 ''abc'' = ''-'' \<and> length ''abc'' = 2) \<and>
   map_of (cmd_subcommands calc_cmd) ''abc'' = None \<and> 1 < length (cmd_arguments calc_cmd) \<and>
   arg_type (cmd_arguments calc_cmd ! 1) = TInt \<and>
   parse_loop example_builtins calc_cmd [''abc''] 1 Map.empty (set_command calc_cmd new_Context) =
     Inl (ValueError TInt ''abc'')"
proof -
  have m: "malformed example_builtins TInt ''abc''"
    by (simp add: malformed_def example_defs)
  have k: "CHR ''='' \<notin> set ''count''" by simp
  have f: "find_option greet_cmd ''count'' = Some (int_option ''count'' ''c'' (VInt 1))"
    by (simp add: find_option_def greet_cmd_def str_option_def int_option_def)
  have t: "opt_type (int_option ''count'' ''c'' (VInt 1)) = TInt" by (simp add: int_option_def)
  have x: "CHR ''c'' \<noteq> CHR ''-''" by simp
  have s: "find_option_short greet_cmd ''c'' = Some (int_option ''count'' ''c'' (VInt 1))"
    by (simp add: find_option_short_def greet_cmd_def str_option_def int_option_def)
  have b: "take 2 ''abc'' \<noteq> ''--''" "\<not> (take 1 ''abc'' = ''-'' \<and> length ''abc'' = 2)" by simp_all
  have p: "map_of (cmd_subcommands calc_cmd) ''abc'' = None" "1 < length (cmd_arguments calc_cmd)"
    "arg_type (cmd_arguments calc_cmd ! 1) = TInt"
    by (simp_all add: calc_cmd_def argument_of_def)
  note g = malformed_numeric_raises [OF m, of greet_cmd "[]" 0 Map.empty
      "set_command greet_cmd new_Context"]
  note c = malformed_numeric_raises [OF m, of calc_cmd "[]" 1 Map.empty
      "set_command calc_cmd new_Context"]
  from g have gl: "parse_loop example_builtins greet_cmd [''--'' @ ''count'', ''abc''] 0 Map.empty
        (set_command greet_cmd new_Context) = Inl (ValueError TInt ''abc'') \<and>
      parse_loop example_builtins greet_cmd [''--'' @ ''count'' @ ''='' @ ''abc''] 0 Map.empty
        (set_command greet_cmd new_Context) = Inl (ValueError TInt ''abc'')"
    using k f t by blast
  from g have gs: "parse_loop example_builtins greet_cmd [[CHR ''-'', CHR ''c''], ''abc''] 0 Map.empty
        (set_command greet_cmd new_Context) = Inl (ValueError TInt ''abc'')"
    using x s t by blast
  have 1: "parse example_builtins greet_cmd [''--count'', ''abc''] = Inl (ValueError TInt ''abc'')"
    and 2: "parse example_builtins greet_cmd [''--count=abc''] = Inl (ValueError TInt ''abc'')"
    using gl by (simp_all add: parse_def)
  have 3: "parse example_builtins greet_cmd [''-c'', ''abc''] = Inl (ValueError TInt ''abc'')"
    using gs by (simp add: parse_def)
  have 4: "parse_loop example_builtins calc_cmd [''abc''] 1 Map.empty (set_command calc_cmd new_Context) =
     Inl (ValueError TInt ''abc'')"
    using c b p by blast
  from m k f t 1 2 x s 3 b p 4 show ?thesis by blast
qed

text \<open>
  The claim C6 as stated fails: the exception does not identify the option. Two commands
  whose options are named \<^verbatim>\<open>count\<close> and \<^verbatim>\<open>size\<close> fail on the literal \<^verbatim>\<open>abc\<close>
  with one and the same exception, the \<^verbatim>\<open>ValueError\<close> of \<^verbatim>\<open>int\<close>.
\<close>

theorem conversion_error_has_no_name:
  "parse example_builtins count_cmd [''--count'', ''abc''] = Inl (ValueError TInt ''abc'') \<and>
   parse example_builtins size_cmd [''--size'', ''abc''] = Inl (ValueError TInt ''abc'')"
  by (simp add: example_defs count_cmd_def size_cmd_def parse_loop.simps(2))

subsection \<open>Hooks that raise\<close>

lemma before_hook_exception_escapes:
  assumes "fire (map (\<lambda>h. h (BeforeArgs args)) (hooks_before cli)) w = (Some e, w1)"
  shows "run B F cli args w = (Inl e, w1)"
  using assms by (simp add: run_def)

text \<open>
  C7, as amended. When the before hooks have returned, the tokens are not a help or
  version request, the parse and the handler have returned, and an after hook raises an
  \<^verbatim>\<open>Exception\<close> \<open>e\<close>, then \<open>e\<close> is handled at the boundary of \<^verbatim>\<open>run\<close>: the error
  hooks are called with \<open>e\<close>, in order; when they all return, the message
  \<^verbatim>\<open>Error: e\<close> is the one entry added to the error stream and \<^verbatim>\<open>run\<close> returns 1;
  when one of them raises, its exception leaves \<^verbatim>\<open>run\<close> and nothing is printed.
\<close>

theorem after_hook_exception_handled:
  assumes "fire (map (\<lambda>h. h (BeforeArgs args)) (hooks_before cli)) w = (None, w1)"
    and "args \<noteq> []" and "hd args \<notin> set [''-h'', ''--help'', ''-v'', ''--version'']"
    and "parse B (root cli) args = Inr ctx" and "ctx_command ctx = Some c"
    and "call_handler F cli (cmd_handler c) ctx w1 = (Inr result, w2)"
    and "fire (map (\<lambda>h. h (AfterArgs ctx result)) (hooks_after cli)) w2 = (Some e, w3)"
    and "is_Exception e"
  shows "(\<forall>w4. fire (map (\<lambda>h. h (ErrorArgs e)) (hooks_error cli)) w3 = (None, w4) \<longrightarrow>
            run B F cli args w = (Inr 1, print_err (''Error: '' @ str_exc B e) w4)) \<and>
         (\<forall>e' w4. fire (map (\<lambda>h. h (ErrorArgs e)) (hooks_error cli)) w3 = (Some e', w4) \<longrightarrow>
            run B F cli args w = (Inl e', w4))"
proof -
  have body: "run_body B F cli args w1 = (Inl e, w3)"
    using assms(2-7) by (simp add: run_body_def)
  show ?thesis
    using assms(1,8) body by (simp add: run_def)
qed

theorem after_hook_exception_handled_witness:
  "run example_builtins hello after_cli [''greet''] silent =
     (Inr 1, \<lparr>stdout = [''Hello'', ''error hook: boom''], stderr = [''Error: boom'']\<rparr>)"
proof -
  let ?ctx = "Context Map.empty Map.empty
      (Some (Context Map.empty Map.empty None (Some (root after_cli))))
      (Some (Command ''greet'' (Fn 0) ''Greet someone'' [] [] []))"
  let ?w2 = "\<lparr>stdout = [''Hello''], stderr = []\<rparr>"
  let ?w4 = "\<lparr>stdout = [''Hello'', ''error hook: boom''], stderr = []\<rparr>"
  have h1: "fire (map (\<lambda>h. h (BeforeArgs [''greet''])) (hooks_before after_cli)) silent = (None, silent)"
    by (simp add: after_cli_def add_hook_def example_cli_def cli_command_def new_CLI_def)
  have h2: "[''greet''] \<noteq> []" by simp
  have h3: "hd [''greet''] \<notin> set [''-h'', ''--help'', ''-v'', ''--version'']" by simp
  have h4: "parse example_builtins (root after_cli) [''greet''] = Inr ?ctx"
    by (simp add: after_cli_def add_hook_def example_cli_def cli_command_def new_CLI_def
        example_defs parse_loop.simps(2))
  have h5: "ctx_command ?ctx = Some (Command ''greet'' (Fn 0) ''Greet someone'' [] [] [])" by simp
  have h6: "call_handler hello after_cli (cmd_handler (Command ''greet'' (Fn 0) ''Greet someone'' [] [] []))
      ?ctx silent = (Inr (VInt 0), ?w2)"
    by (simp add: call_handler_def hello_def print_out_def silent_def)
  have h7: "fire (map (\<lambda>h. h (AfterArgs ?ctx (VInt 0))) (hooks_after after_cli)) ?w2 =
      (Some (OtherException ''boom''), ?w2)"
    by (simp add: after_cli_def add_hook_def example_cli_def cli_command_def new_CLI_def boom_hook_def)
  have h8: "is_Exception (OtherException ''boom'')" by simp
  have h9: "fire (map (\<lambda>h. h (ErrorArgs (OtherException ''boom''))) (hooks_error after_cli)) ?w2 =
      (None, ?w4)"
    by (simp add: after_cli_def add_hook_def example_cli_def cli_command_def new_CLI_def log_hook_def
        print_out_def)
  from after_hook_exception_handled [OF h1 h2 h3 h4 h5 h6 h7 h8] h9
  have "run example_builtins hello after_cli [''greet''] silent =
     (Inr 1, print_err (''Error: '' @ str_exc example_builtins (OtherException ''boom'')) ?w4)"
    by blast
  then show ?thesis by (simp add: print_err_def example_builtins_def)
qed

text \<open>
  The claim C7 as stated, for every hook, fails. A before hook is called ahead of the
  \<^verbatim>\<open>try\<close> statement: its exception leaves \<^verbatim>\<open>run\<close>, no error hook is called and
  nothing is printed. An error hook is called inside the \<^verbatim>\<open>except\<close> clause: its
  exception leaves \<^verbatim>\<open>run\<close> too, the error hooks after it are not called and the message
  is not printed.
\<close>

theorem hook_exception_escapes:
  "run example_builtins hello before_cli [''greet''] silent = (Inl (OtherException ''boom''), silent) \<and>
   run example_builtins hello error_cli [''greet''] silent =
     (Inl (OtherException ''boom''), \<lparr>stdout = [''Hello''], stderr = []\<rparr>)"
  by (simp add: run_def run_body_def before_cli_def error_cli_def add_hook_def example_cli_def
      cli_command_def new_CLI_def boom_hook_def log_hook_def hello_def silent_def call_handler_def
      print_out_def example_defs parse_loop.simps(2))

subsection \<open>Variadic arguments\<close>

lemma ctx_arguments_set_option: "ctx_arguments (set_option k v ctx) = ctx_arguments ctx"
  by (cases ctx) simp

lemma ctx_arguments_set_argument: "ctx_arguments (set_argument k v ctx) = (ctx_arguments ctx)(k \<mapsto> v)"
  by (cases ctx) simp

lemma positionals_long_eq:
  "take 2 arg = ''--'' \<Longrightarrow> CHR ''='' \<in> set (drop 2 arg) \<Longrightarrow>
     positionals cmd (arg # rest) = positionals cmd rest"
  by simp

lemma positionals_long_next:
  "take 2 arg = ''--'' \<Longrightarrow> CHR ''='' \<notin> set (drop 2 arg) \<Longrightarrow>
     positionals cmd (arg # rest) = positionals cmd (tl rest)"
  by simp

lemma positionals_short:
  assumes "take 2 arg \<noteq> ''--''" and "take 1 arg = ''-'' \<and> length arg = 2"
  shows "positionals cmd (arg # rest) =
     (case find_option_short cmd [arg ! 1] of
        None \<Rightarrow> positionals cmd rest
      | Some opt \<Rightarrow> positionals cmd (tl rest))"
  by (subst positionals.simps) (simp only: assms if_True if_False simp_thms)

lemma positionals_bare:
  assumes "take 2 arg \<noteq> ''--''" and "\<not> (take 1 arg = ''-'' \<and> length arg = 2)"
  shows "positionals cmd (arg # rest) = arg # positionals cmd rest"
  by (subst positionals.simps) (simp only: assms if_True if_False simp_thms)

declare positionals.simps(2) [simp del]

lemma collects_Nil:
  assumes "cmd_arguments cmd = pre @ [va]" and "arg_name va \<notin> arg_name ` set pre"
    and "ctx_arguments ctx0 (arg_name va) = None"
  shows "collects B va coll [] (apply_defaults cmd (store_collected coll ctx0))"
proof -
  have "find (\<lambda>a. arg_name a = arg_name va) (pre @ [va]) = Some va"
    using assms(2) by (induction pre) auto
  then show ?thesis
    using assms(1,3)
    by (simp add: collects_def ctx_arguments_apply_defaults ctx_arguments_store_collected
        default_arguments_apply split: option.splits)
qed

lemma collects_Cons:
  assumes "convert B (Some tok) (arg_type va) = Inr v"
    and "collects B va (coll(arg_name va \<mapsto> (case coll (arg_name va) of None \<Rightarrow> [] | Some vs \<Rightarrow> vs) @ [v])) toks ctx"
  shows "collects B va coll (tok # toks) ctx"
proof -
  from assms(2) obtain vs where
    l: "list_all2 (\<lambda>t v. convert B (Some t) (arg_type va) = Inr v) toks vs"
    and c: "ctx_arguments ctx (arg_name va) =
       Some (VList (((case coll (arg_name va) of None \<Rightarrow> [] | Some vs \<Rightarrow> vs) @ [v]) @ vs))"
    by (auto simp: collects_def)
  from l assms(1) have "list_all2 (\<lambda>t v. convert B (Some t) (arg_type va) = Inr v) (tok # toks) (v # vs)"
    by simp
  moreover from c have "ctx_arguments ctx (arg_name va) =
          (case coll (arg_name va) of
             None \<Rightarrow> if v # vs = [] then Some (arg_default va) else Some (VList (v # vs))
           | Some vs0 \<Rightarrow> Some (VList (vs0 @ v # vs)))"
    by (simp split: option.splits)
  ultimately show ?thesis unfolding collects_def by blast
qed

lemma variadic_loop:
  assumes A: "cmd_arguments cmd = pre @ [va]"
    and V: "arg_nargs va \<in> set [''*'', ''+'']"
    and NV: "\<forall>a \<in> set pre. arg_nargs a \<notin> set [''*'', ''+'']"
    and D: "arg_name va \<notin> arg_name ` set pre"
  shows "parse_loop B cmd ts i coll ctx0 = Inr ctx \<Longrightarrow> i \<le> length pre \<Longrightarrow>
     ctx_arguments ctx0 (arg_name va) = None \<Longrightarrow>
     \<forall>t \<in> set (positionals cmd ts). map_of (cmd_subcommands cmd) t = None \<Longrightarrow>
     collects B va coll (drop (length pre - i) (positionals cmd ts)) ctx"
proof (induction ts arbitrary: i coll ctx0 rule: length_induct)
  case (1 ts)
  have IH: "collects B va c (drop (length pre - j) (positionals cmd ys)) ctx"
    if "length ys < length ts" "parse_loop B cmd ys j c x = Inr ctx" "j \<le> length pre"
      "ctx_arguments x (arg_name va) = None"
      "\<forall>t \<in> set (positionals cmd ys). map_of (cmd_subcommands cmd) t = None"
    for ys j c x
    using "1.IH" that by blast
  note res = "1.prems"(1) and le = "1.prems"(2) and un = "1.prems"(3) and ns = "1.prems"(4)
  show ?case
  proof (cases ts)
    case Nil
    with res collects_Nil [OF A D un, of B coll] show ?thesis by auto
  next
    case (Cons tok rest)
    have len1: "length rest < length ts" and len2: "length (tl rest) < length ts"
      using Cons by auto
    have opt: "collects B va coll (drop (length pre - i) (positionals cmd ys)) ctx"
      if "parse_loop B cmd ys i coll (set_option m v ctx0) = Inr ctx" "length ys < length ts"
        "positionals cmd ts = positionals cmd ys" for ys m v
      using IH [OF that(2) that(1) le] un ns that(3) by (simp add: ctx_arguments_set_option)
    have skip: "collects B va coll (drop (length pre - i) (positionals cmd ys)) ctx"
      if "parse_loop B cmd ys i coll ctx0 = Inr ctx" "length ys < length ts"
        "positionals cmd ts = positionals cmd ys" for ys
      using IH [OF that(2) that(1) le un] ns that(3) by simp
    consider (long_eq) "take 2 tok = ''--''" "CHR ''='' \<in> set (drop 2 tok)"
      | (long_next) "take 2 tok = ''--''" "CHR ''='' \<notin> set (drop 2 tok)"
      | (short) "take 2 tok \<noteq> ''--''" "take 1 tok = ''-'' \<and> length tok = 2"
      | (bare) "take 2 tok \<noteq> ''--''" "\<not> (take 1 tok = ''-'' \<and> length tok = 2)"
      by blast
    then show ?thesis
    proof cases
      case long_eq
      have p: "positionals cmd ts = positionals cmd rest"
        using Cons long_eq by (simp add: positionals_long_eq)
      show ?thesis
      proof (cases "find_option cmd (takeWhile (\<lambda>c. c \<noteq> CHR ''='') (drop 2 tok))")
        case None
        with res Cons long_eq have "parse_loop B cmd rest i coll ctx0 = Inr ctx"
          by (simp add: parse_loop_long_eq)
        from skip [OF this len1 p] p show ?thesis by simp
      next
        case (Some opt)
        with res Cons long_eq obtain v where
          "parse_loop B cmd rest i coll (set_option (opt_name opt) v ctx0) = Inr ctx"
          by (auto simp: parse_loop_long_eq split: sum.splits)
        from opt [OF this len1 p] p show ?thesis by simp
      qed
    next
      case long_next
      have p: "positionals cmd ts = positionals cmd (tl rest)"
        using Cons long_next by (simp add: positionals_long_next)
      show ?thesis
      proof (cases "find_option cmd (drop 2 tok)")
        case None
        with res Cons long_next have "parse_loop B cmd (tl rest) i coll ctx0 = Inr ctx"
          by (simp add: parse_loop_long_next)
        from skip [OF this len2 p] p show ?thesis by simp
      next
        case (Some opt)
        with res Cons long_next obtain v where
          "parse_loop B cmd (tl rest) i coll (set_option (opt_name opt) v ctx0) = Inr ctx"
          by (auto simp: parse_loop_long_next split: sum.splits)
        from opt [OF this len2 p] p show ?thesis by simp
      qed
    next
      case short
      show ?thesis
      proof (cases "find_option_short cmd [tok ! 1]")
        case None
        have p: "positionals cmd ts = positionals cmd rest"
          using Cons short None by (simp add: positionals_short)
        from None res Cons short have "parse_loop B cmd rest i coll ctx0 = Inr ctx"
          by (simp add: parse_loop_short)
        from skip [OF this len1 p] p show ?thesis by simp
      next
        case (Some opt)
        have p: "positionals cmd ts = positionals cmd (tl rest)"
          using Cons short Some by (simp add: positionals_short)
        from Some res Cons short obtain v where
          "parse_loop B cmd (tl rest) i coll (set_option (opt_name opt) v ctx0) = Inr ctx"
          by (auto simp: parse_loop_short split: sum.splits)
        from opt [OF this len2 p] p show ?thesis by simp
      qed
    next
      case bare
      have p: "positionals cmd ts = tok # positionals cmd rest"
        using Cons bare by (simp add: positionals_bare)
      with ns have nsub: "map_of (cmd_subcommands cmd) tok = None"
        and ns': "\<forall>t \<in> set (positionals cmd rest). map_of (cmd_subcommands cmd) t = None"
        by simp_all
      have lt: "i < length (cmd_arguments cmd)" using le A by simp
      note res' = res [unfolded Cons parse_loop_bare [OF bare] nsub option.case]
      show ?thesis
      proof (cases "i < length pre")
        case True
        then have a: "cmd_arguments cmd ! i = pre ! i" and m: "pre ! i \<in> set pre"
          using A by (simp_all add: nth_append)
        with NV D have nv: "arg_nargs (pre ! i) \<notin> set [''*'', ''+'']"
          and ne: "arg_name (pre ! i) \<noteq> arg_name va"
          by (auto simp: image_iff)
        from res' lt a nv obtain v where
          r: "parse_loop B cmd rest (i + 1) coll (set_argument (arg_name (pre ! i)) v ctx0) = Inr ctx"
          by (auto split: sum.splits)
        have un': "ctx_arguments (set_argument (arg_name (pre ! i)) v ctx0) (arg_name va) = None"
          using un ne by (simp add: ctx_arguments_set_argument)
        have "i + 1 \<le> length pre" using True by simp
        from IH [OF len1 r this un' ns']
        have "collects B va coll (drop (length pre - (i + 1)) (positionals cmd rest)) ctx" .
        moreover have "drop (length pre - i) (tok # positionals cmd rest) =
            drop (length pre - (i + 1)) (positionals cmd rest)"
        proof -
          from True have "length pre - i = Suc (length pre - (i + 1))" by simp
          then show ?thesis by simp
        qed
        ultimately show ?thesis using p by simp
      next
        case False
        with le have i: "i = length pre" by simp
        then have a: "cmd_arguments cmd ! i = va" using A by simp
        from res' lt a V obtain v where
          cv: "convert B (Some tok) (arg_type va) = Inr v" and
          r: "parse_loop B cmd rest i
                (coll(arg_name va \<mapsto> (case coll (arg_name va) of None \<Rightarrow> [] | Some vs \<Rightarrow> vs) @ [v]))
                ctx0 = Inr ctx"
          by (auto split: sum.splits)
        from IH [OF len1 r le un ns'] i
        have "collects B va
            (coll(arg_name va \<mapsto> (case coll (arg_name va) of None \<Rightarrow> [] | Some vs \<Rightarrow> vs) @ [v]))
            (positionals cmd rest) ctx"
          by simp
        from collects_Cons [OF cv this] show ?thesis using p i by simp
      qed
    qed
  qed
qed

lemma convert_error:
  "convert B value typ = Inl e \<Longrightarrow> \<exists>s. e = ValueError typ s \<and> malformed B typ s"
  by (auto simp: convert_def construct_def malformed_def split: option.splits if_splits vtype.splits)

lemma loop_error:
  "parse_loop B cmd ts i coll ctx0 = Inl e \<Longrightarrow> \<exists>typ s. e = ValueError typ s \<and> malformed B typ s"
proof (induction ts arbitrary: cmd i coll ctx0 rule: length_induct)
  case (1 ts)
  have IH: "\<exists>typ s. e = ValueError typ s \<and> malformed B typ s"
    if "length ys < length ts" "parse_loop B c ys j cl x = Inl e" for ys c j cl x
    using "1.IH" that by blast
  note res = "1.prems"
  show ?case
  proof (cases ts)
    case Nil
    with res show ?thesis by simp
  next
    case (Cons tok rest)
    have len1: "length rest < length ts" and len2: "length (tl rest) < length ts"
      using Cons by auto
    consider (long_eq) "take 2 tok = ''--''" "CHR ''='' \<in> set (drop 2 tok)"
      | (long_next) "take 2 tok = ''--''" "CHR ''='' \<notin> set (drop 2 tok)"
      | (short) "take 2 tok \<noteq> ''--''" "take 1 tok = ''-'' \<and> length tok = 2"
      | (bare) "take 2 tok \<noteq> ''--''" "\<not> (take 1 tok = ''-'' \<and> length tok = 2)"
      by blast
    then show ?thesis
    proof cases
      case long_eq
      from res show ?thesis
        unfolding Cons parse_loop_long_eq [OF long_eq]
        using IH [OF len1]
        by (auto split: option.splits sum.splits dest: convert_error)
    next
      case long_next
      from res show ?thesis
        unfolding Cons parse_loop_long_next [OF long_next]
        using IH [OF len2]
        by (auto split: option.splits sum.splits dest: convert_error)
    next
      case short
      from res show ?thesis
        unfolding Cons parse_loop_short [OF short]
        using IH [OF len1] IH [OF len2]
        by (auto split: option.splits sum.splits dest: convert_error)
    next
      case bare
      from res show ?thesis
        unfolding Cons parse_loop_bare [OF bare]
        using IH [OF len1]
        by (auto split: option.splits sum.splits if_splits dest: convert_error)
    qed
  qed
qed

text \<open>
  C4, as amended. For every Command whose last declared Argument is variadic (\<^verbatim>\<open>*\<close> or
  \<^verbatim>\<open>+\<close>) and the only variadic one, its name not being the name of an Argument before
  it, and for every stream none of whose positional tokens names a subcommand: a parse that
  returns binds the variadic Argument to the sequence, in the order of the stream, of the
  converted positional tokens that come after those that fill the Arguments before it (all
  the positional tokens when it is the only Argument: the positional index does not
  advance); when there is no such token, also for \<^verbatim>\<open>+\<close>, the Argument is left at its
  declared default. A parse that raises raises the \<^verbatim>\<open>ValueError\<close> of a conversion:
  nothing enforces one-or-more.
\<close>

theorem variadic_argument_collects:
  assumes "cmd_arguments cmd = pre @ [va]"
    and "arg_nargs va \<in> set [''*'', ''+'']"
    and "\<forall>a \<in> set pre. arg_nargs a \<notin> set [''*'', ''+'']"
    and "arg_name va \<notin> arg_name ` set pre"
    and "\<forall>t \<in> set (positionals cmd ts). map_of (cmd_subcommands cmd) t = None"
  shows "(\<forall>ctx. parse B cmd ts = Inr ctx \<longrightarrow>
            (\<exists>vs. list_all2 (\<lambda>t v. convert B (Some t) (arg_type va) = Inr v)
                     (drop (length pre) (positionals cmd ts)) vs \<and>
                   ctx_arguments ctx (arg_name va) =
                     (if vs = [] then Some (arg_default va) else Some (VList vs)))) \<and>
         (\<forall>e. parse B cmd ts = Inl e \<longrightarrow> (\<exists>typ s. e = ValueError typ s \<and> malformed B typ s))"
proof (intro conjI allI impI)
  fix ctx
  assume p: "parse B cmd ts = Inr ctx"
  have u: "ctx_arguments (set_command cmd new_Context) (arg_name va) = None"
    by (simp add: new_Context_def)
  from variadic_loop [OF assms(1-4) p [unfolded parse_def] _ u assms(5)]
  show "\<exists>vs. list_all2 (\<lambda>t v. convert B (Some t) (arg_type va) = Inr v)
                     (drop (length pre) (positionals cmd ts)) vs \<and>
                   ctx_arguments ctx (arg_name va) =
                     (if vs = [] then Some (arg_default va) else Some (VList vs))"
    by (simp add: collects_def)
next
  fix e
  assume "parse B cmd ts = Inl e"
  then show "\<exists>typ s. e = ValueError typ s \<and> malformed B typ s"
    unfolding parse_def by (rule loop_error)
qed

lemma convert_str: "convert B (Some t) TStr = Inr v \<longleftrightarrow> v = VStr t"
  by (auto simp: convert_def construct_def)

theorem variadic_argument_collects_witness:
  "cmd_arguments files_cmd = [] @ [argument_of ''files'' TStr VNone ''+''] \<and>
   arg_nargs (argument_of ''files'' TStr VNone ''+'') \<in> set [''*'', ''+''] \<and>
   positionals files_cmd [''a'', ''-m'', ''note'', ''b'', ''c''] = [''a'', ''b'', ''c''] \<and>
   (\<exists>ctx. parse example_builtins files_cmd [''a'', ''-m'', ''note'', ''b'', ''c''] = Inr ctx \<and>
      ctx_arguments ctx ''files'' = Some (VList [VStr ''a'', VStr ''b'', VStr ''c''])) \<and>
   positionals files_cmd [''-m'', ''note''] = [] \<and>
   (\<exists>ctx. parse example_builtins files_cmd [''-m'', ''note''] = Inr ctx \<and>
      ctx_arguments ctx ''files'' = Some VNone) \<and>
   cmd_arguments copy_cmd = [argument_of ''dest'' TStr VNone []] @ [argument_of ''sources'' TStr VNone ''*''] \<and>
   (\<exists>ctx. parse example_builtins copy_cmd [''a'', ''b'', ''c''] = Inr ctx \<and>
      ctx_arguments ctx ''sources'' = Some (VList [VStr ''b'', VStr ''c'']))"
proof -
  let ?files = "argument_of ''files'' TStr VNone ''+''"
  let ?dest = "argument_of ''dest'' TStr VNone []"
  let ?sources = "argument_of ''sources'' TStr VNone ''*''"
  have a: "cmd_arguments files_cmd = [] @ [?files]" by (simp add: files_cmd_def)
  have v: "arg_nargs ?files \<in> set [''*'', ''+'']" by (simp add: argument_of_def)
  have nv: "\<forall>a \<in> set []. arg_nargs a \<notin> set [''*'', ''+'']" by simp
  have d: "arg_name ?files \<notin> arg_name ` set []" by simp
  have s: "find_option_short files_cmd ''m'' = Some (str_option ''message'' ''m'' VNone)"
    by (simp add: find_option_short_def files_cmd_def str_option_def)
  have p1: "positionals files_cmd [''a'', ''-m'', ''note'', ''b'', ''c''] = [''a'', ''b'', ''c'']"
    by (simp add: positionals.simps(2) s)
  have p2: "positionals files_cmd [''-m'', ''note''] = []"
    by (simp add: positionals.simps(2) s)
  have n1: "\<forall>t \<in> set (positionals files_cmd [''a'', ''-m'', ''note'', ''b'', ''c'']).
      map_of (cmd_subcommands files_cmd) t = None"
    by (simp add: files_cmd_def)
  have n2: "\<forall>t \<in> set (positionals files_cmd [''-m'', ''note'']).
      map_of (cmd_subcommands files_cmd) t = None"
    by (simp add: files_cmd_def)
  obtain c1 where r1: "parse example_builtins files_cmd [''a'', ''-m'', ''note'', ''b'', ''c''] = Inr c1"
    by (simp add: example_defs files_cmd_def parse_loop.simps(2))
  obtain c2 where r2: "parse example_builtins files_cmd [''-m'', ''note''] = Inr c2"
    by (simp add: example_defs files_cmd_def parse_loop.simps(2))
  from variadic_argument_collects [OF a v nv d n1, of example_builtins] r1
  have w1: "ctx_arguments c1 ''files'' = Some (VList [VStr ''a'', VStr ''b'', VStr ''c''])"
    unfolding p1 by (auto simp: argument_of_def list_all2_Cons1 convert_str)
  from variadic_argument_collects [OF a v nv d n2, of example_builtins] r2
  have w2: "ctx_arguments c2 ''files'' = Some VNone"
    unfolding p2 by (auto simp: argument_of_def)
  have a': "cmd_arguments copy_cmd = [?dest] @ [?sources]" by (simp add: copy_cmd_def)
  have v': "arg_nargs ?sources \<in> set [''*'', ''+'']" by (simp add: argument_of_def)
  have nv': "\<forall>a \<in> set [?dest]. arg_nargs a \<notin> set [''*'', ''+'']" by (simp add: argument_of_def)
  have d': "arg_name ?sources \<notin> arg_name ` set [?dest]" by (simp add: argument_of_def)
  have p3: "positionals copy_cmd [''a'', ''b'', ''c''] = [''a'', ''b'', ''c'']"
    by (simp add: positionals.simps(2))
  have n3: "\<forall>t \<in> set (positionals copy_cmd [''a'', ''b'', ''c'']).
      map_of (cmd_subcommands copy_cmd) t = None"
    by (simp add: copy_cmd_def)
  obtain c3 where r3: "parse example_builtins copy_cmd [''a'', ''b'', ''c''] = Inr c3"
    by (simp add: example_defs copy_cmd_def parse_loop.simps(2))
  from variadic_argument_collects [OF a' v' nv' d' n3, of example_builtins] r3
  have w3: "ctx_arguments c3 ''sources'' = Some (VList [VStr ''b'', VStr ''c''])"
    unfolding p3 by (auto simp: argument_of_def list_all2_Cons1 convert_str)
  from a v p1 r1 w1 p2 r2 w2 a' r3 w3 show ?thesis by blast
qed

text \<open>
  The claim C4 as stated, for every Command whose last Argument is variadic, fails when an
  Argument is declared before it. The command \<^verbatim>\<open>copy\<close> declares \<^verbatim>\<open>dest\<close> and then
  the variadic \<^verbatim>\<open>sources\<close>; of the positional tokens \<^verbatim>\<open>a b c\<close> the first goes to
  \<^verbatim>\<open>dest\<close>, and \<^verbatim>\<open>sources\<close> is bound to \<^verbatim>\<open>[b, c]\<close>.
\<close>

theorem variadic_after_first_argument:
  "resolved_argument (parse example_builtins copy_cmd [''a'', ''b'', ''c'']) ''dest'' =
     Inr (Some (VStr ''a'')) \<and>
   resolved_argument (parse example_builtins copy_cmd [''a'', ''b'', ''c'']) ''sources'' =
     Inr (Some (VList [VStr ''b'', VStr ''c''])) \<and>
   resolved_argument (parse example_builtins copy_cmd [''a'', ''b'', ''c'']) ''sources'' \<noteq>
     Inr (Some (VList [VStr ''a'', VStr ''b'', VStr ''c'']))"
  by (simp add: resolved_argument_def example_defs copy_cmd_def parse_loop.simps(2))

end
